theory Spec2Isabelle
  imports Complex_Main "HOL-Library.Word" "HOL-Library.Sublist"
begin

unbundle bit_operations_syntax

section \<open>Route-level alert deduplication\<close>

text \<open>
  The route screen collects the alerts of all waypoints and keeps, for each alert id, the
  first alert carrying it:
  \<^verbatim>\<open>
  const allAlerts = routeData.waypoints.flatMap((wp) => wp.alerts);
  const uniqueAlerts = allAlerts.filter(
    (alert, index, self) => index === self.findIndex((a) => a.id === alert.id)
  );
  \<close>
  Strings are modelled as \<^typ>\<open>string\<close>, that is as lists of code units below 256.
  The field \<open>id\<close> is called \<open>alert_id\<close>, since \<open>id\<close> is the identity function of HOL.
\<close>

record WeatherAlert =
  alert_id :: string
  headline :: string
  severity :: string
  event :: string
  description :: string
  areas :: "string option"

text \<open>
  \<open>Array.prototype.findIndex\<close>: the index of the first element that satisfies the
  predicate, \<open>-1\<close> when there is none. The second argument is the running index.
\<close>

fun findIndexFrom :: "('a \<Rightarrow> bool) \<Rightarrow> 'a list \<Rightarrow> int \<Rightarrow> int" where
  "findIndexFrom P [] k = - 1"
| "findIndexFrom P (x # xs) k = (if P x then k else findIndexFrom P xs (k + 1))"

definition findIndex :: "('a \<Rightarrow> bool) \<Rightarrow> 'a list \<Rightarrow> int" where
  "findIndex P xs = findIndexFrom P xs 0"

text \<open>
  \<open>Array.prototype.filter\<close> with the three-argument callback \<open>(element, index, self)\<close>.
\<close>

fun filterFrom :: "('a \<Rightarrow> int \<Rightarrow> 'a list \<Rightarrow> bool) \<Rightarrow> 'a list \<Rightarrow> int \<Rightarrow> 'a list \<Rightarrow> 'a list" where
  "filterFrom f self k [] = []"
| "filterFrom f self k (x # xs) =
     (if f x k self then x # filterFrom f self (k + 1) xs else filterFrom f self (k + 1) xs)"

definition filter_js :: "('a \<Rightarrow> int \<Rightarrow> 'a list \<Rightarrow> bool) \<Rightarrow> 'a list \<Rightarrow> 'a list" where
  "filter_js f self = filterFrom f self 0 self"

definition uniqueAlerts :: "WeatherAlert list \<Rightarrow> WeatherAlert list" where
  "uniqueAlerts allAlerts =
     filter_js (\<lambda>alert index self. index = findIndex (\<lambda>a. alert_id a = alert_id alert) self)
       allAlerts"

text \<open>
  The home screen deduplicates saved routes with a set of the ids seen so far:
  \<^verbatim>\<open>
  function uniqById<T extends { id: string }>(arr: T[]) {
    const seen = new Set<string>();
    const out: T[] = [];
    for (const item of arr) {
      if (seen.has(item.id)) continue;
      seen.add(item.id);
      out.push(item);
    }
    return out;
  }
  \<close>
  The element type is a parameter; \<open>getId\<close> reads its \<open>id\<close> field.
\<close>

fun uniqByIdLoop :: "('a \<Rightarrow> string) \<Rightarrow> 'a list \<Rightarrow> string set \<Rightarrow> 'a list \<Rightarrow> 'a list" where
  "uniqByIdLoop getId [] seen out = out"
| "uniqByIdLoop getId (item # arr) seen out =
     (if getId item \<in> seen then uniqByIdLoop getId arr seen out
      else uniqByIdLoop getId arr (insert (getId item) seen) (out @ [item]))"

definition uniqById :: "('a \<Rightarrow> string) \<Rightarrow> 'a list \<Rightarrow> 'a list" where
  "uniqById getId arr = uniqByIdLoop getId arr {} []"

text \<open>
  A proof device, not part of the program: the elements of \<open>xs\<close> whose id is neither in
  \<open>seen\<close> nor carried by an earlier element of \<open>xs\<close>.
\<close>

fun keepNew :: "('a \<Rightarrow> string) \<Rightarrow> string set \<Rightarrow> 'a list \<Rightarrow> 'a list" where
  "keepNew getId seen [] = []"
| "keepNew getId seen (x # xs) =
     (if getId x \<in> seen then keepNew getId seen xs
      else x # keepNew getId (insert (getId x) seen) xs)"

section \<open>Road-surface classification on the route screen\<close>

text \<open>
  The records the route screen receives. \<open>number | null\<close> and \<open>string | null\<close> are
  options; a temperature is a whole number of degrees Fahrenheit. The derivation of the
  road condition reads the weather and the alerts of a waypoint only, so the position,
  the name and the distance of the waypoint are left out of \<open>WaypointWeather\<close>. The
  alerts of this screen carry \<open>event\<close>, \<open>headline\<close> and \<open>severity\<close>; the record
  \<open>WeatherAlert\<close> above has these fields.
\<close>

record WeatherData =
  temperature :: "int option"
  conditions :: "string option"
  wind_speed :: "string option"
  humidity :: "int option"

record WaypointWeather =
  weather :: "WeatherData option"
  alerts :: "WeatherAlert list"

text \<open>
  \<open>waypoints.flatMap((wp) => wp.alerts)\<close>, the list the deduplication is applied to.
\<close>

definition flatMapAlerts :: "WaypointWeather list \<Rightarrow> WeatherAlert list" where
  "flatMapAlerts waypoints = concat (map alerts waypoints)"

subsection \<open>String primitives of the host language\<close>

text \<open>
  \<open>String.prototype.toLowerCase\<close> on code units below 256: the letters A to Z and the
  accented capitals of Latin-1 (192 to 222 without the multiplication sign 215) move up
  by 32.
\<close>

definition toLowerChar :: "char \<Rightarrow> char" where
  "toLowerChar c =
     (let n = (of_char c :: nat)
      in if (65 \<le> n \<and> n \<le> 90) \<or> (192 \<le> n \<and> n \<le> 222 \<and> n \<noteq> 215)
         then char_of (n + 32) else c)"

definition toLowerCase :: "string \<Rightarrow> string" where
  "toLowerCase s = map toLowerChar s"

fun startsWith :: "string \<Rightarrow> string \<Rightarrow> bool" where
  "startsWith s [] = True"
| "startsWith [] (d # ds) = False"
| "startsWith (c # cs) (d # ds) = (c = d \<and> startsWith cs ds)"

text \<open>\<open>String.prototype.includes\<close>: the search string occurs at some position.\<close>

fun includes_js :: "string \<Rightarrow> string \<Rightarrow> bool" where
  "includes_js [] needle = (needle = [])"
| "includes_js (c # cs) needle = (startsWith (c # cs) needle \<or> includes_js cs needle)"

text \<open>
  \<open>parseInt\<close> without a radix: leading white space is skipped, a sign is read, the
  prefix \<open>0x\<close> selects base 16, and the longest run of digits is the value; without a
  digit the result is \<open>NaN\<close>, here \<open>None\<close>.
\<close>

definition isWhiteSpace :: "char \<Rightarrow> bool" where
  "isWhiteSpace c = ((of_char c :: nat) \<in> {9, 10, 11, 12, 13, 32, 160})"

definition digitVal :: "nat \<Rightarrow> char \<Rightarrow> nat option" where
  "digitVal radix c =
     (let n = (of_char c :: nat);
          d = (if 48 \<le> n \<and> n \<le> 57 then n - 48
               else if 97 \<le> n \<and> n \<le> 102 then n - 87
               else if 65 \<le> n \<and> n \<le> 70 then n - 55
               else 16)
      in if d < radix then Some d else None)"

fun parseDigits :: "nat \<Rightarrow> string \<Rightarrow> nat \<Rightarrow> nat" where
  "parseDigits radix [] acc = acc"
| "parseDigits radix (c # cs) acc =
     (case digitVal radix c of
        None \<Rightarrow> acc
      | Some d \<Rightarrow> parseDigits radix cs (acc * radix + d))"

definition parseInt :: "string \<Rightarrow> int option" where
  "parseInt string =
     (let S = dropWhile isWhiteSpace string;
          sign = (if S \<noteq> [] \<and> hd S = CHR ''-'' then - 1 else (1 :: int));
          S1 = (if S \<noteq> [] \<and> (hd S = CHR ''+'' \<or> hd S = CHR ''-'') then tl S else S);
          hex = (startsWith S1 ''0x'' \<or> startsWith S1 ''0X'');
          R = (if hex then 16 else 10);
          S2 = (if hex then drop 2 S1 else S1)
      in if S2 = [] \<or> digitVal R (hd S2) = None then None
         else Some (sign * int (parseDigits R S2 0)))"

text \<open>The decimal digits of a number inside a template literal.\<close>

function showNat :: "nat \<Rightarrow> string" where
  "showNat n = (if n < 10 then [char_of (48 + n)] else showNat (n div 10) @ [char_of (48 + n mod 10)])"
  by pat_completeness auto
termination
  by (relation "measure id") auto

declare showNat.simps [simp del]

definition showInt :: "int \<Rightarrow> string" where
  "showInt i = (if i < 0 then CHR ''-'' # showNat (nat (- i)) else showNat (nat i))"

subsection \<open>The derivation\<close>

text \<open>
  The five variables the derivation assigns. An icon is the list of its Unicode code
  points; the other texts are strings, the degree sign being code unit 176.
\<close>

record RoadCondition =
  condIcon :: "nat list"
  condLabel :: string
  condColor :: string
  condDesc :: string
  roadSurface :: string

text \<open>
  \<^verbatim>\<open>
  const temp = wp.weather?.temperature || 50;
  const conditions = (wp.weather?.conditions || '').toLowerCase();
  const hasAlert = wp.alerts.length > 0;
  const windSpeed = wp.weather?.wind_speed ? parseInt(wp.weather.wind_speed) : 0;
  \<close>
  \<open>||\<close> takes its right operand when the left one is absent, \<open>0\<close> or the empty
  string, so a temperature of 0 degrees is replaced by 50 like a missing one.
\<close>

definition tempOf :: "WaypointWeather \<Rightarrow> int" where
  "tempOf wp =
     (case weather wp of
        None \<Rightarrow> 50
      | Some w \<Rightarrow> (case temperature w of None \<Rightarrow> 50 | Some t \<Rightarrow> if t = 0 then 50 else t))"

definition conditionsOf :: "WaypointWeather \<Rightarrow> string" where
  "conditionsOf wp =
     toLowerCase (case weather wp of
        None \<Rightarrow> ''''
      | Some w \<Rightarrow> (case conditions w of None \<Rightarrow> '''' | Some c \<Rightarrow> c))"

definition hasAlertOf :: "WaypointWeather \<Rightarrow> bool" where
  "hasAlertOf wp = (length (alerts wp) > 0)"

definition windSpeedOf :: "WaypointWeather \<Rightarrow> int option" where
  "windSpeedOf wp =
     (case weather wp of
        None \<Rightarrow> Some 0
      | Some w \<Rightarrow>
          (case wind_speed w of
             None \<Rightarrow> Some 0
           | Some s \<Rightarrow> if s = [] then Some 0 else parseInt s))"

text \<open>A comparison with \<open>NaN\<close> is false.\<close>

definition gt_js :: "int option \<Rightarrow> int \<Rightarrow> bool" where
  "gt_js x y = (case x of None \<Rightarrow> False | Some v \<Rightarrow> v > y)"

definition showNumber :: "int option \<Rightarrow> string" where
  "showNumber x = (case x of None \<Rightarrow> ''NaN'' | Some v \<Rightarrow> showInt v)"

definition roadCondition :: "WaypointWeather \<Rightarrow> RoadCondition" where
  "roadCondition wp =
     (let temp = tempOf wp;
          conditions = conditionsOf wp;
          hasAlert = hasAlertOf wp;
          windSpeed = windSpeedOf wp
      in if hasAlert then
           \<lparr>condIcon = [0x26A0, 0xFE0F], condLabel = ''HAZARD'', condColor = ''#ef4444'',
            condDesc = (if event (hd (alerts wp)) = [] then ''Weather alert active''
                        else event (hd (alerts wp))),
            roadSurface = ''Check conditions before driving''\<rparr>
         else if temp \<le> 32 \<and> (includes_js conditions ''rain'' \<or> includes_js conditions ''freezing''
                                \<or> includes_js conditions ''drizzle'') then
           \<lparr>condIcon = [0x1F9CA], condLabel = ''ICY'', condColor = ''#ef4444'',
            condDesc = ''BLACK ICE LIKELY - '' @ showInt temp @ [CHR 0xB0] @ ''F'',
            roadSurface = ''Roads may be ice-covered. Reduce speed significantly.''\<rparr>
         else if temp \<le> 32 \<and> includes_js conditions ''snow'' then
           \<lparr>condIcon = [0x2744, 0xFE0F], condLabel = ''SNOW'', condColor = ''#60a5fa'',
            condDesc = ''SNOW-COVERED ROADS - '' @ showInt temp @ [CHR 0xB0] @ ''F'',
            roadSurface = ''Snow accumulation on roadway. Use caution.''\<rparr>
         else if temp > 32 \<and> temp \<le> 40 \<and> includes_js conditions ''snow'' then
           \<lparr>condIcon = [0x1F328, 0xFE0F], condLabel = ''SLUSH'', condColor = ''#f59e0b'',
            condDesc = ''SLUSHY CONDITIONS - '' @ showInt temp @ [CHR 0xB0] @ ''F'',
            roadSurface = ''Wet, slushy roads. Reduced traction.''\<rparr>
         else if includes_js conditions ''fog'' \<or> includes_js conditions ''mist'' then
           \<lparr>condIcon = [0x1F32B, 0xFE0F], condLabel = ''FOG'', condColor = ''#9ca3af'',
            condDesc = ''LIMITED VISIBILITY'',
            roadSurface = ''Use low beams. Increase following distance.''\<rparr>
         else if includes_js conditions ''rain'' \<or> includes_js conditions ''shower''
                 \<or> includes_js conditions ''drizzle'' then
           \<lparr>condIcon = [0x1F4A7], condLabel = ''WET'', condColor = ''#3b82f6'',
            condDesc = ''WET ROADS'',
            roadSurface = ''Reduced traction. Watch for hydroplaning.''\<rparr>
         else if includes_js conditions ''thunder'' \<or> includes_js conditions ''storm'' then
           \<lparr>condIcon = [0x26C8, 0xFE0F], condLabel = ''STORM'', condColor = ''#7c3aed'',
            condDesc = ''STORM CONDITIONS'',
            roadSurface = ''Heavy rain, possible flooding. Consider delaying.''\<rparr>
         else if gt_js windSpeed 30 then
           \<lparr>condIcon = [0x1F4A8], condLabel = ''WINDY'', condColor = ''#f59e0b'',
            condDesc = ''HIGH WINDS - '' @ showNumber windSpeed @ '' mph'',
            roadSurface = ''Crosswinds may affect vehicle control.''\<rparr>
         else
           \<lparr>condIcon = [0x2713], condLabel = ''DRY'', condColor = ''#22c55e'',
            condDesc = ''Roads clear and dry'',
            roadSurface = ''Normal driving conditions''\<rparr>)"

subsection \<open>Category and severity\<close>

text \<open>
  The categories of the data model, read off the label the derivation assigns.
\<close>

datatype category = Dry | Wet | Icy | Snow | Slush | Fog | Storm | Windy | Hazard

definition categoryOf :: "RoadCondition \<Rightarrow> category option" where
  "categoryOf rc =
     (let l = condLabel rc
      in if l = ''DRY'' then Some Dry
         else if l = ''WET'' then Some Wet
         else if l = ''ICY'' then Some Icy
         else if l = ''SNOW'' then Some Snow
         else if l = ''SLUSH'' then Some Slush
         else if l = ''FOG'' then Some Fog
         else if l = ''STORM'' then Some Storm
         else if l = ''WINDY'' then Some Windy
         else if l = ''HAZARD'' then Some Hazard
         else None)"

text \<open>
  Modelled from the spec: the numeric severity of a category. The route screen assigns a
  label, an icon, a colour and two texts and no number; the severity field of the road
  condition is filled in by the service, whose code is not part of the sources. The table
  is the one of the classifier rules of the specification: hazard 3, icy 3, snow 2,
  slush 2, fog 2, wet 1, storm 3, windy 2, dry 0.
\<close>

fun severityOf :: "category \<Rightarrow> nat" where
  "severityOf Hazard = 3"
| "severityOf Icy = 3"
| "severityOf Snow = 2"
| "severityOf Slush = 2"
| "severityOf Fog = 2"
| "severityOf Wet = 1"
| "severityOf Storm = 3"
| "severityOf Windy = 2"
| "severityOf Dry = 0"

definition severityOfCondition :: "RoadCondition \<Rightarrow> nat option" where
  "severityOfCondition rc = map_option severityOf (categoryOf rc)"

section \<open>Polyline decoding\<close>

text \<open>
  \<^verbatim>\<open>
  function decodePolyline(encoded: string): { latitude: number; longitude: number }[] {
    const points = [];
    let index = 0; let lat = 0; let lng = 0;
    while (index < encoded.length) {
      let shift = 0; let result = 0; let byte;
      do {
        byte = encoded.charCodeAt(index++) - 63;
        result |= (byte & 0x1f) << shift;
        shift += 5;
      } while (byte >= 0x20);
      const dlat = result & 1 ? ~(result >> 1) : result >> 1;
      lat += dlat;
      ... the same loop once more, for dlng and lng ...
      points.push({ latitude: lat / 1e5, longitude: lng / 1e5 });
    }
    return points;
  }
  \<close>
  The bitwise operators work on 32-bit integers, so \<open>result\<close> is a \<^typ>\<open>32 word\<close>;
  \<open>lat\<close> and \<open>lng\<close> are numbers that are only added to, modelled as integers, and the
  quotient by \<open>1e5\<close> is taken in the reals. The two loops may in principle run forever,
  so they are partial functions into \<open>option\<close>, where \<open>None\<close> stands for not
  returning.
\<close>

record Coordinate =
  latitude :: real
  longitude :: real

text \<open>\<open>charCodeAt\<close> is \<open>NaN\<close>, here \<open>None\<close>, at and beyond the end of the string.\<close>

definition charCodeAt :: "string \<Rightarrow> nat \<Rightarrow> int option" where
  "charCodeAt s i = (if i < length s then Some (int (of_char (s ! i))) else None)"

text \<open>Arithmetic on \<open>NaN\<close> gives \<open>NaN\<close>; as a 32-bit integer \<open>NaN\<close> is 0.\<close>

definition minus_js :: "int option \<Rightarrow> int \<Rightarrow> int option" where
  "minus_js x y = map_option (\<lambda>v. v - y) x"

definition toInt32 :: "int option \<Rightarrow> 32 word" where
  "toInt32 x = (case x of None \<Rightarrow> 0 | Some v \<Rightarrow> word_of_int v)"

definition ge_js :: "int option \<Rightarrow> int \<Rightarrow> bool" where
  "ge_js x y = (case x of None \<Rightarrow> False | Some v \<Rightarrow> v \<ge> y)"

text \<open>
  \<open>result |= (byte & 0x1f) << shift\<close>; the shift count of \<open><<\<close> is taken modulo 32.
\<close>

definition accumulate :: "32 word \<Rightarrow> int option \<Rightarrow> nat \<Rightarrow> 32 word" where
  "accumulate result byte shift = result OR push_bit (shift mod 32) (toInt32 byte AND 0x1f)"

text \<open>
  The \<open>do ... while\<close> loop. The result is the accumulated word and the index after the
  last character read.
\<close>

partial_function (option) readGroup :: "string \<Rightarrow> nat \<Rightarrow> nat \<Rightarrow> 32 word \<Rightarrow> (32 word \<times> nat) option" where
  "readGroup encoded index shift result =
     (let byte = minus_js (charCodeAt encoded index) 63;
          result' = accumulate result byte shift
      in if ge_js byte 0x20 then readGroup encoded (index + 1) (shift + 5) result'
         else Some (result', index + 1))"

declare readGroup.simps [code]

text \<open>\<open>result & 1 ? ~(result >> 1) : result >> 1\<close>, with the arithmetic shift.\<close>

definition delta :: "32 word \<Rightarrow> int" where
  "delta result =
     sint (if result AND 1 \<noteq> 0 then NOT (signed_drop_bit 1 result) else signed_drop_bit 1 result)"

partial_function (option) decodeLoop :: "string \<Rightarrow> nat \<Rightarrow> int \<Rightarrow> int \<Rightarrow> Coordinate list \<Rightarrow> Coordinate list option" where
  "decodeLoop encoded index lat lng points =
     (if index < length encoded then
        Option.bind (readGroup encoded index 0 0) (\<lambda>(result1, index1).
          Option.bind (readGroup encoded index1 0 0) (\<lambda>(result2, index2).
            decodeLoop encoded index2 (lat + delta result1) (lng + delta result2)
              (points @ [\<lparr>latitude = real_of_int (lat + delta result1) / 100000,
                          longitude = real_of_int (lng + delta result2) / 100000\<rparr>])))
      else Some points)"

declare decodeLoop.simps [code]

definition decodePolyline :: "string \<Rightarrow> Coordinate list option" where
  "decodePolyline encoded = decodeLoop encoded 0 0 0 []"

subsection \<open>The encoder\<close>

text \<open>
  Modelled from the spec: the encoder of the polyline codec, which is not part of the
  sources (the route geometry arrives encoded from the service). The specification
  describes a delta encoding of coordinates in fixed point with five decimals (factor
  1e5), each signed delta zig-zag encoded and written in 5-bit groups, lowest group
  first, as characters offset by 63, a group that is followed by another one carrying
  the continuation bit \<open>0x20\<close>.
\<close>

function encodeUnsigned :: "nat \<Rightarrow> string" where
  "encodeUnsigned v =
     (if v \<ge> 32 then char_of (32 + v mod 32 + 63) # encodeUnsigned (v div 32)
      else [char_of (v + 63)])"
  by pat_completeness auto
termination
  by (relation "measure id") auto

declare encodeUnsigned.simps [simp del]

definition zigzag :: "int \<Rightarrow> nat" where
  "zigzag d = nat (if d < 0 then - (2 * d) - 1 else 2 * d)"

definition encodeSigned :: "int \<Rightarrow> string" where
  "encodeSigned d = encodeUnsigned (zigzag d)"

fun encodeE5 :: "int \<Rightarrow> int \<Rightarrow> (int \<times> int) list \<Rightarrow> string" where
  "encodeE5 lat lng [] = []"
| "encodeE5 lat lng ((la, lo) # ps) =
     encodeSigned (la - lat) @ encodeSigned (lo - lng) @ encodeE5 la lo ps"

definition toE5 :: "real \<Rightarrow> int" where
  "toE5 x = round (x * 100000)"

definition encode :: "Coordinate list \<Rightarrow> string" where
  "encode ps = encodeE5 0 0 (map (\<lambda>p. (toE5 (latitude p), toE5 (longitude p))) ps)"

text \<open>
  Notions used to state the properties of the codec: the coordinate a pair of fixed-point
  values stands for, the fixed-point values every latitude and longitude fits in, a
  coordinate within the valid bounds, and a coordinate rounded to five decimals.
\<close>

definition fromE5 :: "int \<times> int \<Rightarrow> Coordinate" where
  "fromE5 q = \<lparr>latitude = real_of_int (fst q) / 100000, longitude = real_of_int (snd q) / 100000\<rparr>"

definition inRange :: "int \<times> int \<Rightarrow> bool" where
  "inRange q = (\<bar>fst q\<bar> \<le> 9000000 \<and> \<bar>snd q\<bar> \<le> 18000000)"

definition validCoordinate :: "Coordinate \<Rightarrow> bool" where
  "validCoordinate p =
     (- 90 \<le> latitude p \<and> latitude p \<le> 90 \<and> - 180 \<le> longitude p \<and> longitude p \<le> 180)"

definition roundE5 :: "Coordinate \<Rightarrow> Coordinate" where
  "roundE5 p = fromE5 (toE5 (latitude p), toE5 (longitude p))"

section \<open>The stored premium status\<close>

text \<open>
  \<^verbatim>\<open>
  export async function getPremiumStatus(): Promise<PremiumStatus> {
    try {
      const data = await AsyncStorage.getItem(PREMIUM_KEY);
      if (!data) return { isPremium: false };
      const status: PremiumStatus = JSON.parse(data);
      if (status.expiresAt) {
        const expiryDate = new Date(status.expiresAt);
        if (expiryDate < new Date()) {
          return { isPremium: false };
        }
      }
      return status;
    } catch {
      return { isPremium: false };
    }
  }
  \<close>
  An exception is a value: a call that may throw returns \<open>Throw\<close> or \<open>Return v\<close>. The
  storage, the JSON parser, the date parser and the clock belong to the platform and are
  parameters of the model: the storage maps a key to the outcome of \<open>getItem\<close>, the
  parser maps a text to the outcome of \<open>JSON.parse\<close>, the date parser maps a text to
  the time value of \<open>new Date(text)\<close> in milliseconds (\<open>None\<close> for an invalid date,
  whose time value is \<open>NaN\<close>), and \<open>now\<close> is the time value of \<open>new Date()\<close>. A
  parsed text is \<open>null\<close>, on which reading a property throws, or a status object;
  other JSON values are outside the declared type of \<open>status\<close>.
\<close>

datatype Plan = monthly | yearly

record PremiumStatus =
  isPremium :: bool
  plan :: "Plan option"
  expiresAt :: "string option"

datatype 'a js_result = Throw | Return 'a

datatype parsed = ParsedNull | ParsedStatus PremiumStatus

definition PREMIUM_KEY :: string where
  "PREMIUM_KEY = ''routecast_premium_status''"

text \<open>The object literal \<open>{ isPremium: false }\<close>.\<close>

definition notPremium :: PremiumStatus where
  "notPremium = \<lparr>isPremium = False, plan = None, expiresAt = None\<rparr>"

text \<open>\<open>a < b\<close> on time values: false when the left one is \<open>NaN\<close>.\<close>

definition lt_js :: "int option \<Rightarrow> int \<Rightarrow> bool" where
  "lt_js x y = (case x of None \<Rightarrow> False | Some v \<Rightarrow> v < y)"

definition getPremiumStatus ::
  "(string \<Rightarrow> string option js_result) \<Rightarrow> (string \<Rightarrow> parsed js_result) \<Rightarrow>
   (string \<Rightarrow> int option) \<Rightarrow> int \<Rightarrow> PremiumStatus" where
  "getPremiumStatus getItem JSON_parse Date_parse now =
     (case getItem PREMIUM_KEY of
        Throw \<Rightarrow> notPremium
      | Return None \<Rightarrow> notPremium
      | Return (Some data) \<Rightarrow>
          if data = [] then notPremium
          else (case JSON_parse data of
                  Throw \<Rightarrow> notPremium
                | Return ParsedNull \<Rightarrow> notPremium
                | Return (ParsedStatus status) \<Rightarrow>
                    (case expiresAt status of
                       None \<Rightarrow> status
                     | Some e \<Rightarrow>
                         if e = [] then status
                         else if lt_js (Date_parse e) now then notPremium
                         else status)))"

section \<open>Colour of the safety score\<close>

text \<open>
  The safety score and its risk level are computed by the service; the route screen
  displays the score it received and colours it:
  \<^verbatim>\<open>
  const getSafetyColor = (score: number) => {
    if (score >= 80) return '#22c55e';
    if (score >= 60) return '#eab308';
    if (score >= 40) return '#f97316';
    return '#ef4444';
  };
  \<close>
\<close>

definition getSafetyColor :: "real \<Rightarrow> string" where
  "getSafetyColor score =
     (if score \<ge> 80 then ''#22c55e''
      else if score \<ge> 60 then ''#eab308''
      else if score \<ge> 40 then ''#f97316''
      else ''#ef4444'')"

section \<open>Deduplication: proofs\<close>

subsection \<open>Both implementations compute the same list\<close>

lemma uniqByIdLoop_keepNew:
  "uniqByIdLoop getId arr seen out = out @ keepNew getId seen arr"
  by (induction arr arbitrary: seen out) simp_all

lemma uniqById_keepNew: "uniqById getId arr = keepNew getId {} arr"
  by (simp add: uniqById_def uniqByIdLoop_keepNew)

lemma findIndexFrom_none:
  "\<forall>x \<in> set xs. \<not> P x \<Longrightarrow> findIndexFrom P xs k = - 1"
  by (induction xs arbitrary: k) simp_all

lemma findIndexFrom_range:
  "\<exists>x \<in> set xs. P x \<Longrightarrow> k \<le> findIndexFrom P xs k \<and> findIndexFrom P xs k < k + int (length xs)"
proof (induction xs arbitrary: k)
  case Nil
  then show ?case by simp
next
  case (Cons x xs)
  show ?case
  proof (cases "P x")
    case True
    then show ?thesis by simp
  next
    case False
    with Cons.prems have "\<exists>y \<in> set xs. P y" by simp
    from Cons.IH [OF this, of "k + 1"] False show ?thesis by simp
  qed
qed

lemma findIndexFrom_append:
  "0 \<le> k \<Longrightarrow>
   findIndexFrom P (pre @ x # xs) k = k + int (length pre) \<longleftrightarrow> (\<forall>y \<in> set pre. \<not> P y) \<and> P x"
proof (induction pre arbitrary: k)
  case Nil
  show ?case
  proof (cases "P x")
    case True
    then show ?thesis by simp
  next
    case False
    show ?thesis
    proof (cases "\<exists>y \<in> set xs. P y")
      case True
        from findIndexFrom_range [OF True, of "k + 1"] False show ?thesis by simp
    next
      case no: False
      then have "findIndexFrom P xs (k + 1) = - 1"
        by (simp add: findIndexFrom_none)
      with False Nil show ?thesis by simp
    qed
  qed
next
  case (Cons p pre)
  show ?case
  proof (cases "P p")
    case True
    then show ?thesis by simp
  next
    case False
    with Cons.IH [of "k + 1"] Cons.prems show ?thesis by (simp add: add.assoc)
  qed
qed

lemma filterFrom_keepNew:
  "filterFrom (\<lambda>alert index self. index = findIndex (\<lambda>a. getId a = getId alert) self)
     (pre @ rest) (int (length pre)) rest = keepNew getId (getId ` set pre) rest"
proof (induction rest arbitrary: pre)
  case Nil
  show ?case by simp
next
  case (Cons x rest)
  have first: "int (length pre) = findIndex (\<lambda>a. getId a = getId x) (pre @ x # rest)
      \<longleftrightarrow> getId x \<notin> getId ` set pre"
    using findIndexFrom_append [of 0 "\<lambda>a. getId a = getId x" pre x rest]
    by (auto simp: findIndex_def eq_commute [of "int (length pre)"] image_iff)
  have step: "getId ` set (pre @ [x]) = insert (getId x) (getId ` set pre)"
    by auto
  from Cons.IH [of "pre @ [x]"] first step show ?case
    by (simp add: add.commute insert_absorb)
qed

lemma uniqueAlerts_keepNew: "uniqueAlerts L = keepNew alert_id {} L"
  using filterFrom_keepNew [of alert_id "[]" L]
  by (simp add: uniqueAlerts_def filter_js_def)

subsection \<open>Properties of the kept elements\<close>

lemma keepNew_ids_set:
  "getId ` set (keepNew getId seen xs) = getId ` set xs - seen"
  by (induction xs arbitrary: seen) auto

lemma keepNew_ids_distinct: "distinct (map getId (keepNew getId seen xs))"
proof (induction xs arbitrary: seen)
  case Nil
  show ?case by simp
next
  case (Cons x xs)
  have "getId x \<notin> getId ` set (keepNew getId (insert (getId x) seen) xs)"
    by (simp add: keepNew_ids_set)
  with Cons.IH show ?case by simp
qed

lemma keepNew_subseq: "subseq (keepNew getId seen xs) xs"
  by (induction xs arbitrary: seen) auto

lemma keepNew_fixed:
  "distinct (map getId xs) \<Longrightarrow> getId ` set xs \<inter> seen = {} \<Longrightarrow> keepNew getId seen xs = xs"
proof (induction xs arbitrary: seen)
  case Nil
  show ?case by simp
next
  case (Cons x xs)
  from Cons.prems have "getId ` set xs \<inter> insert (getId x) seen = {}"
    by auto
  with Cons.IH [of "insert (getId x) seen"] Cons.prems show ?case by auto
qed

lemma keepNew_idem: "keepNew getId {} (keepNew getId {} xs) = keepNew getId {} xs"
  by (rule keepNew_fixed) (simp_all add: keepNew_ids_distinct)

lemma remdups_snoc: "remdups (ys @ [g]) = remdups (filter (\<lambda>i. i \<noteq> g) ys) @ [g]"
  by (induction ys) auto

lemma keepNew_first_order:
  "map getId (keepNew getId seen xs) = rev (remdups (rev (filter (\<lambda>i. i \<notin> seen) (map getId xs))))"
proof (induction xs arbitrary: seen)
  case Nil
  show ?case by simp
next
  case (Cons x xs)
  show ?case
  proof (cases "getId x \<in> seen")
    case True
    with Cons.IH [of seen] show ?thesis by simp
  next
    case False
    have "remdups (rev (filter (\<lambda>i. i \<notin> seen) (map getId xs)) @ [getId x])
        = remdups (rev (filter (\<lambda>i. i \<notin> insert (getId x) seen) (map getId xs))) @ [getId x]"
      by (simp add: remdups_snoc rev_filter [symmetric] conj_commute)
    with False Cons.IH [of "insert (getId x) seen"] show ?thesis by simp
  qed
qed

lemma keepNew_unseen: "a \<in> set (keepNew getId seen xs) \<Longrightarrow> getId a \<notin> seen"
  using keepNew_ids_set [of getId seen xs] by blast

lemma keepNew_find:
  "a \<in> set (keepNew getId seen xs) \<Longrightarrow> find (\<lambda>b. getId b = getId a) xs = Some a"
proof (induction xs arbitrary: seen)
  case Nil
  then show ?case by simp
next
  case (Cons x xs)
  show ?case
  proof (cases "getId x = getId a")
    case True
    with Cons.prems have "a = x"
      by (auto split: if_splits dest: keepNew_unseen)
    then show ?thesis by simp
  next
    case False
    with Cons.prems have "a \<in> set (keepNew getId seen xs) \<or> a \<in> set (keepNew getId (insert (getId x) seen) xs)"
      by (auto split: if_splits)
    with Cons.IH False show ?thesis by auto
  qed
qed

lemma keepNew_map:
  "(\<And>a. getId (f a) = getId a) \<Longrightarrow> keepNew getId seen (map f xs) = map f (keepNew getId seen xs)"
  by (induction xs arbitrary: seen) simp_all

subsection \<open>The route-level alert list\<close>

text \<open>
  On the route screen the input of the deduplication is the concatenation of the alert
  lists of the waypoints, so the ids of the result are the ids that occur at some
  waypoint.
\<close>

lemma uniqueAlerts_flatMapAlerts_ids:
  "set (map alert_id (uniqueAlerts (flatMapAlerts waypoints)))
   = (\<Union>wp \<in> set waypoints. alert_id ` set (alerts wp))"
  using keepNew_ids_set [of alert_id "{}" "flatMapAlerts waypoints"]
  by (auto simp: uniqueAlerts_keepNew flatMapAlerts_def)

text \<open>
  Claim C5. For every list of alerts, the deduplicated list carries each alert id of the
  input exactly once: the ids of the result are pairwise distinct and are the ids of the
  input, they stand in the order of their first appearance, and the alert kept for an id
  is the first alert of the input with that id. Only the id decides whether two alerts
  are the same: of two alerts the second is dropped exactly when the ids are equal, and
  rewriting any other field of the alerts (a function \<open>f\<close> that keeps every id) commutes
  with the deduplication.
\<close>

theorem uniqueAlerts_each_id_once:
  "distinct (map alert_id (uniqueAlerts L))
   \<and> set (map alert_id (uniqueAlerts L)) = set (map alert_id L)
   \<and> map alert_id (uniqueAlerts L) = rev (remdups (rev (map alert_id L)))
   \<and> (\<forall>a \<in> set (uniqueAlerts L). find (\<lambda>b. alert_id b = alert_id a) L = Some a)
   \<and> uniqueAlerts [a, b] = (if alert_id a = alert_id b then [a] else [a, b])
   \<and> ((\<forall>x. alert_id (f x) = alert_id x) \<longrightarrow> uniqueAlerts (map f L) = map f (uniqueAlerts L))"
proof -
  have once: "distinct (map alert_id (uniqueAlerts L))"
    by (simp only: uniqueAlerts_keepNew keepNew_ids_distinct)
  have ids: "set (map alert_id (uniqueAlerts L)) = set (map alert_id L)"
    using keepNew_ids_set [of alert_id "{}" L] by (simp add: uniqueAlerts_keepNew)
  have order: "map alert_id (uniqueAlerts L) = rev (remdups (rev (map alert_id L)))"
    using keepNew_first_order [of alert_id "{}" L] by (simp add: uniqueAlerts_keepNew)
  have firsts: "\<forall>a \<in> set (uniqueAlerts L). find (\<lambda>b. alert_id b = alert_id a) L = Some a"
    by (simp add: uniqueAlerts_keepNew keepNew_find)
  have pair: "uniqueAlerts [a, b] = (if alert_id a = alert_id b then [a] else [a, b])"
    by (simp add: uniqueAlerts_keepNew)
  have text_unused:
    "(\<forall>x. alert_id (f x) = alert_id x) \<longrightarrow> uniqueAlerts (map f L) = map f (uniqueAlerts L)"
    by (simp add: uniqueAlerts_keepNew keepNew_map)
  from once ids order firsts pair text_unused show ?thesis
    by blast
qed

text \<open>
  Three alerts, the third repeating the id of the first under another headline: the first
  and the second are kept.
\<close>

theorem uniqueAlerts_each_id_once_witness:
  "uniqueAlerts
     [\<lparr>alert_id = ''NWS.1'', headline = ''Winter Storm Warning'', severity = ''Severe'',
        event = ''Winter Storm Warning'', description = ''Heavy snow'', areas = None\<rparr>,
      \<lparr>alert_id = ''NWS.2'', headline = ''Wind Advisory'', severity = ''Minor'',
        event = ''Wind Advisory'', description = ''Gusts'', areas = Some ''Laramie''\<rparr>,
      \<lparr>alert_id = ''NWS.1'', headline = ''Updated'', severity = ''Severe'',
        event = ''Winter Storm Warning'', description = ''Heavy snow'', areas = None\<rparr>]
   = [\<lparr>alert_id = ''NWS.1'', headline = ''Winter Storm Warning'', severity = ''Severe'',
        event = ''Winter Storm Warning'', description = ''Heavy snow'', areas = None\<rparr>,
      \<lparr>alert_id = ''NWS.2'', headline = ''Wind Advisory'', severity = ''Minor'',
        event = ''Wind Advisory'', description = ''Gusts'', areas = Some ''Laramie''\<rparr>]
   \<and> find (\<lambda>b. alert_id b = ''NWS.1'')
       [\<lparr>alert_id = ''NWS.1'', headline = ''Winter Storm Warning'', severity = ''Severe'',
          event = ''Winter Storm Warning'', description = ''Heavy snow'', areas = None\<rparr>,
        \<lparr>alert_id = ''NWS.2'', headline = ''Wind Advisory'', severity = ''Minor'',
          event = ''Wind Advisory'', description = ''Gusts'', areas = Some ''Laramie''\<rparr>,
        \<lparr>alert_id = ''NWS.1'', headline = ''Updated'', severity = ''Severe'',
          event = ''Winter Storm Warning'', description = ''Heavy snow'', areas = None\<rparr>]
     = Some \<lparr>alert_id = ''NWS.1'', headline = ''Winter Storm Warning'', severity = ''Severe'',
          event = ''Winter Storm Warning'', description = ''Heavy snow'', areas = None\<rparr>
   \<and> (\<forall>x. alert_id (x\<lparr>headline := ''same''\<rparr>) = alert_id x)
   \<and> uniqueAlerts (map (\<lambda>x. x\<lparr>headline := ''same''\<rparr>)
       [\<lparr>alert_id = ''NWS.1'', headline = ''Winter Storm Warning'', severity = ''Severe'',
          event = ''Winter Storm Warning'', description = ''Heavy snow'', areas = None\<rparr>,
        \<lparr>alert_id = ''NWS.2'', headline = ''Wind Advisory'', severity = ''Minor'',
          event = ''Wind Advisory'', description = ''Gusts'', areas = Some ''Laramie''\<rparr>,
        \<lparr>alert_id = ''NWS.1'', headline = ''Updated'', severity = ''Severe'',
          event = ''Winter Storm Warning'', description = ''Heavy snow'', areas = None\<rparr>])
     = [\<lparr>alert_id = ''NWS.1'', headline = ''same'', severity = ''Severe'',
          event = ''Winter Storm Warning'', description = ''Heavy snow'', areas = None\<rparr>,
        \<lparr>alert_id = ''NWS.2'', headline = ''same'', severity = ''Minor'',
          event = ''Wind Advisory'', description = ''Gusts'', areas = Some ''Laramie''\<rparr>]"
  using uniqueAlerts_each_id_once
    [of "[\<lparr>alert_id = ''NWS.1'', headline = ''Winter Storm Warning'', severity = ''Severe'',
              event = ''Winter Storm Warning'', description = ''Heavy snow'', areas = None\<rparr>,
          \<lparr>alert_id = ''NWS.2'', headline = ''Wind Advisory'', severity = ''Minor'',
              event = ''Wind Advisory'', description = ''Gusts'', areas = Some ''Laramie''\<rparr>,
          \<lparr>alert_id = ''NWS.1'', headline = ''Updated'', severity = ''Severe'',
              event = ''Winter Storm Warning'', description = ''Heavy snow'', areas = None\<rparr>]"
        undefined undefined "\<lambda>x. x\<lparr>headline := ''same''\<rparr>"]
  by (simp add: uniqueAlerts_def filter_js_def findIndex_def)

text \<open>
  Claim C6. Deduplication is idempotent, and it keeps the relative order of the input:
  the result is a subsequence of the input whose ids are the ids of the input in the
  order of their first occurrence. The same holds of \<open>uniqById\<close>, which computes the
  same list as the filter of the route screen.
\<close>

theorem uniqueAlerts_idempotent:
  "uniqueAlerts (uniqueAlerts L) = uniqueAlerts L
   \<and> subseq (uniqueAlerts L) L
   \<and> map alert_id (uniqueAlerts L) = rev (remdups (rev (map alert_id L)))
   \<and> uniqById alert_id L = uniqueAlerts L
   \<and> uniqById getId (uniqById getId arr) = uniqById getId arr
   \<and> subseq (uniqById getId arr) arr"
proof -
  have order: "map alert_id (uniqueAlerts L) = rev (remdups (rev (map alert_id L)))"
    using keepNew_first_order [of alert_id "{}" L] by (simp add: uniqueAlerts_keepNew)
  then show ?thesis
    by (simp add: uniqueAlerts_keepNew uniqById_keepNew keepNew_idem keepNew_subseq)
qed

section \<open>Classification: proofs\<close>

lemmas roadCondition_inputs =
  tempOf_def conditionsOf_def hasAlertOf_def windSpeedOf_def

lemma char_eq_char_of_iff: "c = char_of n \<longleftrightarrow> of_char c = take_bit 8 n"
  using char_of_eq_iff [of n c] by (auto simp: eq_commute)

lemmas roadCondition_eval =
  roadCondition_def roadCondition_inputs toLowerCase_def toLowerChar_def parseInt_def
  isWhiteSpace_def digitVal_def gt_js_def showNumber_def showInt_def showNat.simps categoryOf_def
  severityOfCondition_def char_of_eq_iff char_eq_char_of_iff Let_def

lemma roadCondition_hazard:
  "alerts wp \<noteq> [] \<Longrightarrow>
   roadCondition wp =
     \<lparr>condIcon = [0x26A0, 0xFE0F], condLabel = ''HAZARD'', condColor = ''#ef4444'',
      condDesc = (if event (hd (alerts wp)) = [] then ''Weather alert active''
                  else event (hd (alerts wp))),
      roadSurface = ''Check conditions before driving''\<rparr>"
  by (simp add: roadCondition_def hasAlertOf_def Let_def)

lemma roadCondition_no_alert_defaults:
  "alerts wp = [] \<Longrightarrow> tempOf wp = 50 \<Longrightarrow> conditionsOf wp = [] \<Longrightarrow> windSpeedOf wp = Some 0 \<Longrightarrow>
   roadCondition wp =
     \<lparr>condIcon = [0x2713], condLabel = ''DRY'', condColor = ''#22c55e'',
      condDesc = ''Roads clear and dry'', roadSurface = ''Normal driving conditions''\<rparr>"
  by (simp add: roadCondition_def hasAlertOf_def gt_js_def Let_def)

text \<open>
  Claim C1. A waypoint with a non-empty alert list is classified as a hazard of
  severity 3 whatever its weather snapshot says: the result does not change when the
  snapshot is replaced by any other one, or removed. The label is the one the derivation
  assigns; the severity is the one the specification's table gives to the category.
\<close>

theorem roadCondition_alert_dominates:
  "alerts wp \<noteq> [] \<Longrightarrow>
     condLabel (roadCondition wp) = ''HAZARD''
   \<and> categoryOf (roadCondition wp) = Some Hazard
   \<and> severityOfCondition (roadCondition wp) = Some 3
   \<and> (\<forall>w'. roadCondition (wp\<lparr>weather := w'\<rparr>) = roadCondition wp)"
proof -
  assume a: "alerts wp \<noteq> []"
  have label: "condLabel (roadCondition wp) = ''HAZARD''"
    using a by (simp add: roadCondition_hazard)
  have cat: "categoryOf (roadCondition wp) = Some Hazard"
    using label by (simp add: categoryOf_def)
  have sev: "severityOfCondition (roadCondition wp) = Some 3"
    using cat by (simp add: severityOfCondition_def)
  have indep: "\<forall>w'. roadCondition (wp\<lparr>weather := w'\<rparr>) = roadCondition wp"
    using a by (simp add: roadCondition_hazard)
  from label cat sev indep show ?thesis by blast
qed

text \<open>
  A waypoint at 20 degrees under heavy snow and strong wind, with one alert: the alert
  decides.
\<close>

theorem roadCondition_alert_dominates_witness:
  "alerts \<lparr>weather = Some \<lparr>temperature = Some 20, conditions = Some ''Heavy Snow'',
                              wind_speed = Some ''45 mph'', humidity = Some 90\<rparr>,
            alerts = [\<lparr>alert_id = ''NWS.1'', headline = ''Blizzard Warning'',
                       severity = ''Extreme'', event = ''Blizzard Warning'',
                       description = ''Whiteout'', areas = None\<rparr>]\<rparr> \<noteq> []
   \<and> categoryOf (roadCondition
        \<lparr>weather = Some \<lparr>temperature = Some 20, conditions = Some ''Heavy Snow'',
                           wind_speed = Some ''45 mph'', humidity = Some 90\<rparr>,
         alerts = [\<lparr>alert_id = ''NWS.1'', headline = ''Blizzard Warning'',
                    severity = ''Extreme'', event = ''Blizzard Warning'',
                    description = ''Whiteout'', areas = None\<rparr>]\<rparr>) = Some Hazard
   \<and> severityOfCondition (roadCondition
        \<lparr>weather = Some \<lparr>temperature = Some 20, conditions = Some ''Heavy Snow'',
                           wind_speed = Some ''45 mph'', humidity = Some 90\<rparr>,
         alerts = [\<lparr>alert_id = ''NWS.1'', headline = ''Blizzard Warning'',
                    severity = ''Extreme'', event = ''Blizzard Warning'',
                    description = ''Whiteout'', areas = None\<rparr>]\<rparr>) = Some 3"
  using roadCondition_alert_dominates
    [of "\<lparr>weather = Some \<lparr>temperature = Some 20, conditions = Some ''Heavy Snow'',
                               wind_speed = Some ''45 mph'', humidity = Some 90\<rparr>,
          alerts = [\<lparr>alert_id = ''NWS.1'', headline = ''Blizzard Warning'',
                     severity = ''Extreme'', event = ''Blizzard Warning'',
                     description = ''Whiteout'', areas = None\<rparr>]\<rparr>"]
  by simp

text \<open>
  Claim C2, as stated, fails. A waypoint without a snapshot and without alerts is
  labelled DRY, and its whole result equals the result for a snapshot that reports 70
  degrees and clear sky: no record of the derivation says "no data".
\<close>

theorem roadCondition_absent_snapshot_counterexample:
  "categoryOf (roadCondition \<lparr>weather = None, alerts = []\<rparr>) = Some Dry
   \<and> condDesc (roadCondition \<lparr>weather = None, alerts = []\<rparr>) = ''Roads clear and dry''
   \<and> roadCondition \<lparr>weather = None, alerts = []\<rparr>
       = roadCondition \<lparr>weather = Some \<lparr>temperature = Some 70, conditions = Some ''Clear'',
                                          wind_speed = Some ''5 mph'', humidity = Some 40\<rparr>,
                         alerts = []\<rparr>"
  by (simp add: roadCondition_eval)

text \<open>
  Claim C2, amended. An absent snapshot is replaced by defaults: 50 degrees, an empty
  conditions text and wind speed 0. So a waypoint without a snapshot is a hazard when it
  has an alert and dry otherwise, and its result is the result for a present snapshot all
  of whose fields are empty, and for one that reports 50 degrees, no conditions text and
  wind 0.
\<close>

theorem roadCondition_absent_snapshot:
  "weather wp = None \<Longrightarrow>
     categoryOf (roadCondition wp) = Some (if alerts wp = [] then Dry else Hazard)
   \<and> (alerts wp = [] \<longrightarrow>
        roadCondition wp =
          \<lparr>condIcon = [0x2713], condLabel = ''DRY'', condColor = ''#22c55e'',
           condDesc = ''Roads clear and dry'', roadSurface = ''Normal driving conditions''\<rparr>)
   \<and> roadCondition wp
       = roadCondition (wp\<lparr>weather := Some \<lparr>temperature = None, conditions = None,
                                              wind_speed = None, humidity = None\<rparr>\<rparr>)
   \<and> roadCondition wp
       = roadCondition (wp\<lparr>weather := Some \<lparr>temperature = Some 50, conditions = Some '''',
                                              wind_speed = Some ''0'', humidity = None\<rparr>\<rparr>)"
proof (cases "alerts wp = []")
  case True
  assume none: "weather wp = None"
  have dry: "roadCondition wp =
      \<lparr>condIcon = [0x2713], condLabel = ''DRY'', condColor = ''#22c55e'',
       condDesc = ''Roads clear and dry'', roadSurface = ''Normal driving conditions''\<rparr>"
    using True none
    by (intro roadCondition_no_alert_defaults) (simp_all add: roadCondition_inputs toLowerCase_def)
  have e1: "roadCondition (wp\<lparr>weather := Some \<lparr>temperature = None, conditions = None,
                                              wind_speed = None, humidity = None\<rparr>\<rparr>) =
      \<lparr>condIcon = [0x2713], condLabel = ''DRY'', condColor = ''#22c55e'',
       condDesc = ''Roads clear and dry'', roadSurface = ''Normal driving conditions''\<rparr>"
    using True
    by (intro roadCondition_no_alert_defaults) (simp_all add: roadCondition_inputs toLowerCase_def)
  have e2: "roadCondition (wp\<lparr>weather := Some \<lparr>temperature = Some 50, conditions = Some '''',
                                              wind_speed = Some ''0'', humidity = None\<rparr>\<rparr>) =
      \<lparr>condIcon = [0x2713], condLabel = ''DRY'', condColor = ''#22c55e'',
       condDesc = ''Roads clear and dry'', roadSurface = ''Normal driving conditions''\<rparr>"
    using True
    by (intro roadCondition_no_alert_defaults)
       (simp_all add: roadCondition_inputs toLowerCase_def parseInt_def isWhiteSpace_def
          digitVal_def Let_def)
  have cat: "categoryOf (roadCondition wp) = Some Dry"
    by (simp add: dry categoryOf_def)
  from True dry e1 e2 cat show ?thesis by simp
next
  case False
  then have "categoryOf (roadCondition wp) = Some Hazard"
    by (simp add: roadCondition_hazard categoryOf_def)
  with False show ?thesis
    by (simp add: roadCondition_hazard)
qed

theorem roadCondition_absent_snapshot_witness:
  "weather \<lparr>weather = None, alerts = []\<rparr> = None
   \<and> alerts \<lparr>weather = None, alerts = []\<rparr> = []
   \<and> categoryOf (roadCondition \<lparr>weather = None, alerts = []\<rparr>) = Some Dry
   \<and> roadCondition \<lparr>weather = None, alerts = []\<rparr> =
       \<lparr>condIcon = [0x2713], condLabel = ''DRY'', condColor = ''#22c55e'',
        condDesc = ''Roads clear and dry'', roadSurface = ''Normal driving conditions''\<rparr>"
  using roadCondition_absent_snapshot [of "\<lparr>weather = None, alerts = []\<rparr>"]
  by (simp add: categoryOf_def)

text \<open>
  Claim C7, as stated, fails on the fog rule: the derivation looks for \<open>fog\<close> and
  \<open>mist\<close> and does not look for \<open>haze\<close>. A hazy waypoint at 50 degrees without
  wind is labelled DRY.
\<close>

theorem roadCondition_haze_counterexample:
  "categoryOf (roadCondition \<lparr>weather = Some \<lparr>temperature = Some 50, conditions = Some ''Haze'',
                                                wind_speed = Some ''5 mph'', humidity = Some 60\<rparr>,
                               alerts = []\<rparr>) \<noteq> Some Fog
   \<and> categoryOf (roadCondition \<lparr>weather = Some \<lparr>temperature = Some 50, conditions = Some ''Haze'',
                                                wind_speed = Some ''5 mph'', humidity = Some 60\<rparr>,
                               alerts = []\<rparr>) = Some Dry"
  by (simp add: roadCondition_eval)

text \<open>
  The rules on temperature are not reached at 0 degrees: \<open>temperature || 50\<close> reads a
  temperature of 0 as a missing one. Freezing rain at 0 degrees is labelled WET and snow
  at 0 degrees is labelled DRY.
\<close>

lemma roadCondition_zero_degrees:
  "categoryOf (roadCondition \<lparr>weather = Some \<lparr>temperature = Some 0,
                                                conditions = Some ''Freezing Rain'',
                                                wind_speed = Some ''5 mph'', humidity = None\<rparr>,
                               alerts = []\<rparr>) = Some Wet
   \<and> categoryOf (roadCondition \<lparr>weather = Some \<lparr>temperature = Some 0,
                                                conditions = Some ''Snow'',
                                                wind_speed = Some ''5 mph'', humidity = None\<rparr>,
                               alerts = []\<rparr>) = Some Dry"
  by (simp add: roadCondition_eval)

text \<open>
  Claim C7, amended. For a waypoint with a snapshot and no alert, whose temperature is
  not 0, the rules are tried in this order and the first that matches decides, on the
  conditions text in lower case: at most 32 degrees with rain, freezing or drizzle gives
  icy (severity 3); at most 32 degrees with snow gives snow (2); above 32 and at most 40
  degrees with snow gives slush (2); fog or mist gives fog (2); rain, shower or drizzle
  gives wet (1); thunder or storm gives storm (3); a wind-speed text whose leading
  integer exceeds 30 gives windy (2); otherwise dry (0). A missing temperature counts
  as 50 degrees and a missing or empty wind-speed text as 0.
\<close>

theorem roadCondition_rule_order:
  assumes "weather wp = Some w" and "alerts wp = []" and "temperature w \<noteq> Some 0"
  shows "(let t = (case temperature w of None \<Rightarrow> 50 | Some d \<Rightarrow> d);
              c = toLowerCase (case conditions w of None \<Rightarrow> '''' | Some s \<Rightarrow> s);
              wind = (case wind_speed w of None \<Rightarrow> Some 0
                      | Some s \<Rightarrow> if s = [] then Some 0 else parseInt s);
              cat = (if t \<le> 32 \<and> (includes_js c ''rain'' \<or> includes_js c ''freezing''
                                    \<or> includes_js c ''drizzle'') then Icy
                     else if t \<le> 32 \<and> includes_js c ''snow'' then Snow
                     else if 32 < t \<and> t \<le> 40 \<and> includes_js c ''snow'' then Slush
                     else if includes_js c ''fog'' \<or> includes_js c ''mist'' then Fog
                     else if includes_js c ''rain'' \<or> includes_js c ''shower''
                             \<or> includes_js c ''drizzle'' then Wet
                     else if includes_js c ''thunder'' \<or> includes_js c ''storm'' then Storm
                     else if (case wind of None \<Rightarrow> False | Some v \<Rightarrow> v > 30) then Windy
                     else Dry)
          in categoryOf (roadCondition wp) = Some cat
             \<and> severityOfCondition (roadCondition wp) = Some (severityOf cat))"
proof -
  define t where "t = (case temperature w of None \<Rightarrow> 50 | Some d \<Rightarrow> d)"
  define c where "c = toLowerCase (case conditions w of None \<Rightarrow> '''' | Some s \<Rightarrow> s)"
  define wind where "wind = (case wind_speed w of None \<Rightarrow> Some 0
                      | Some s \<Rightarrow> if s = [] then Some 0 else parseInt s)"
  define cat where "cat =
     (if t \<le> 32 \<and> (includes_js c ''rain'' \<or> includes_js c ''freezing''
                         \<or> includes_js c ''drizzle'') then Icy
      else if t \<le> 32 \<and> includes_js c ''snow'' then Snow
      else if 32 < t \<and> t \<le> 40 \<and> includes_js c ''snow'' then Slush
      else if includes_js c ''fog'' \<or> includes_js c ''mist'' then Fog
      else if includes_js c ''rain'' \<or> includes_js c ''shower''
              \<or> includes_js c ''drizzle'' then Wet
      else if includes_js c ''thunder'' \<or> includes_js c ''storm'' then Storm
      else if (case wind of None \<Rightarrow> False | Some v \<Rightarrow> v > 30) then Windy
      else Dry)"
  have t: "tempOf wp = t"
    using assms(1,3) by (simp add: tempOf_def t_def split: option.splits)
  have c: "conditionsOf wp = c"
    using assms(1) by (simp add: conditionsOf_def c_def)
  have wind: "windSpeedOf wp = wind"
    using assms(1) by (simp add: windSpeedOf_def wind_def)
  have a: "\<not> hasAlertOf wp"
    using assms(2) by (simp add: hasAlertOf_def)
  have main: "categoryOf (roadCondition wp) = Some cat"
    unfolding roadCondition_def Let_def t c wind cat_def
    by (simp only: a if_False if_distrib [of categoryOf])
       (simp add: categoryOf_def gt_js_def if_distrib [of Some] Let_def
          split del: if_split cong: if_cong)
  then have "severityOfCondition (roadCondition wp) = Some (severityOf cat)"
    by (simp add: severityOfCondition_def)
  with main show ?thesis
    unfolding Let_def t_def [symmetric] c_def [symmetric] wind_def [symmetric] cat_def [symmetric]
    by simp
qed

text \<open>
  The scenario of the specification: 28 degrees and light rain give icy, severity 3.
\<close>

theorem roadCondition_rule_order_witness:
  "weather \<lparr>weather = Some \<lparr>temperature = Some 28, conditions = Some ''light rain'',
                                  wind_speed = Some ''10 mph'', humidity = Some 80\<rparr>,
             alerts = []\<rparr>
     = Some \<lparr>temperature = Some 28, conditions = Some ''light rain'',
              wind_speed = Some ''10 mph'', humidity = Some 80\<rparr>
   \<and> alerts \<lparr>weather = Some \<lparr>temperature = Some 28, conditions = Some ''light rain'',
                                     wind_speed = Some ''10 mph'', humidity = Some 80\<rparr>,
                alerts = []\<rparr> = []
   \<and> temperature \<lparr>temperature = Some 28, conditions = Some ''light rain'',
                     wind_speed = Some ''10 mph'', humidity = Some 80\<rparr> \<noteq> Some 0
   \<and> categoryOf (roadCondition
         \<lparr>weather = Some \<lparr>temperature = Some 28, conditions = Some ''light rain'',
                                wind_speed = Some ''10 mph'', humidity = Some 80\<rparr>,
           alerts = []\<rparr>) = Some Icy
   \<and> severityOfCondition (roadCondition
         \<lparr>weather = Some \<lparr>temperature = Some 28, conditions = Some ''light rain'',
                                wind_speed = Some ''10 mph'', humidity = Some 80\<rparr>,
           alerts = []\<rparr>) = Some 3"
proof -
  let ?w = "\<lparr>temperature = Some 28, conditions = Some ''light rain'',
             wind_speed = Some ''10 mph'', humidity = Some 80\<rparr>"
  let ?wp = "\<lparr>weather = Some ?w, alerts = []\<rparr>"
  have h1: "weather ?wp = Some ?w" and h2: "alerts ?wp = []" and h3: "temperature ?w \<noteq> Some 0"
    by simp_all
  have c: "toLowerCase ''light rain'' = ''light rain''"
    by (simp add: toLowerCase_def toLowerChar_def)
  have "categoryOf (roadCondition ?wp) = Some Icy
      \<and> severityOfCondition (roadCondition ?wp) = Some (severityOf Icy)"
    using roadCondition_rule_order [OF h1 h2 h3] by (simp add: Let_def c)
  with h1 h2 h3 show ?thesis by simp
qed

section \<open>Polyline decoding: proofs\<close>

subsection \<open>Reading one group\<close>


lemma or_push_bit_nat: "a < 2 ^ s \<Longrightarrow> (a::nat) OR push_bit s m = a + m * 2 ^ s"
proof -
  assume "a < 2 ^ s"
  then have "take_bit s a = a" by (simp add: take_bit_nat_eq_self)
  then have "a AND push_bit s m = 0"
    by (metis (no_types, lifting) add_cancel_right_right and.assoc and.commute
        push_bit_of_0 push_bit_take_bit take_bit_0 take_bit_eq_mask)
  then have "a + push_bit s m = a OR push_bit s m"
    by (rule disjunctive_add_eq_or)
  then show ?thesis by (simp add: push_bit_eq_mult)
qed

lemma word_or_push_bit:
  "a < 2 ^ s \<Longrightarrow> (of_nat a :: 32 word) OR push_bit s (of_nat m) = of_nat (a + m * 2 ^ s)"
proof -
  assume a: "a < 2 ^ s"
  have "(of_nat a :: 32 word) OR push_bit s (of_nat m) = of_nat (a OR push_bit s m)"
    by (simp only: of_nat_or_eq of_nat_push_bit)
  with or_push_bit_nat [OF a, of m] show ?thesis by simp
qed

lemma and_31_nat: "(b::nat) AND 31 = b mod 32"
proof -
  have "b AND mask 5 = take_bit 5 b" by (simp only: take_bit_eq_mask)
  moreover have "(mask 5 :: nat) = 31" by (simp add: mask_eq_exp_minus_1)
  ultimately show ?thesis by (simp add: take_bit_eq_mod)
qed

lemma toInt32_and_0x1f: "toInt32 (Some (int b)) AND 0x1f = of_nat (b mod 32)"
proof -
  have "(of_nat b :: 32 word) AND of_nat 31 = of_nat (b AND 31)"
    by (simp only: of_nat_and_eq)
  then show ?thesis by (simp add: toInt32_def and_31_nat)
qed

lemma sint_of_nat_small: "z < 2 ^ 31 \<Longrightarrow> sint (of_nat z :: 32 word) = int z"
proof -
  assume "z < 2 ^ 31"
  then have "int z < 2 ^ 31" by (metis of_nat_less_iff of_nat_numeral of_nat_power)
  then have "signed_take_bit 31 (int z) = int z"
    by (intro signed_take_bit_int_eq_self) simp_all
  then show ?thesis by (simp add: signed_of_nat)
qed

lemma sint_NOT: "sint (NOT (w :: 32 word)) = - sint w - 1"
  by (metis bit.xor_one_right decr_eq_not_minus signed_minus_1 signed_xor_eq
      verit_minus_simplify(4))

lemma word_odd_test: "((of_nat z :: 32 word) AND 1 \<noteq> 0) = odd z"
  by (metis and_one_eq even_iff_mod_2_eq_zero even_of_nat)

lemma delta_of_nat:
  assumes "z < 2 ^ 31"
  shows "delta (of_nat z) = (if odd z then - int (z div 2) - 1 else int (z div 2))"
proof -
  have half: "sint (signed_drop_bit (Suc 0) (of_nat z :: 32 word)) = int (z div 2)"
    using sint_of_nat_small [OF assms]
    by (simp add: sint_signed_drop_bit_eq drop_bit_eq_div zdiv_int)
  show ?thesis
    by (simp add: delta_def word_odd_test sint_NOT half)
qed

lemma zigzag_bound: "- (2 ^ 30) \<le> d \<Longrightarrow> d < 2 ^ 30 \<Longrightarrow> zigzag d < 2 ^ 31"
  by (simp add: zigzag_def) linarith

lemma delta_zigzag:
  assumes "- (2 ^ 30) \<le> d" and "d < 2 ^ 30"
  shows "delta (of_nat (zigzag d)) = d"
proof (cases "d < 0")
  case True
  then have z: "zigzag d = 2 * nat (- d - 1) + 1"
    by (simp add: zigzag_def)
  have "odd (zigzag d)" and "zigzag d div 2 = nat (- d - 1)"
    unfolding z by simp_all
  with True show ?thesis
    by (simp add: delta_of_nat [OF zigzag_bound [OF assms]])
next
  case False
  then have z: "zigzag d = 2 * nat d"
    by (simp add: zigzag_def)
  have "even (zigzag d)" and "zigzag d div 2 = nat d"
    unfolding z by simp_all
  with False show ?thesis
    by (simp add: delta_of_nat [OF zigzag_bound [OF assms]])
qed

lemma charCodeAt_append:
  "charCodeAt (pre @ c # rest) (length pre) = Some (int (of_char c))"
  by (simp add: charCodeAt_def)

lemma charCodeAt_past_end: "length s \<le> i \<Longrightarrow> charCodeAt s i = None"
  by (simp add: charCodeAt_def)

lemma accumulate_NaN: "accumulate result None shift = result"
  by (simp add: accumulate_def toInt32_def)

lemma accumulate_of_nat:
  assumes "a < 2 ^ s" and "s < 32"
  shows "accumulate (of_nat a) (Some (int b)) s = of_nat (a + b mod 32 * 2 ^ s)"
proof -
  have "accumulate (of_nat a) (Some (int b)) s = of_nat a OR push_bit s (of_nat (b mod 32))"
    unfolding accumulate_def toInt32_and_0x1f using assms(2) by simp
  then show ?thesis
    by (simp only: word_or_push_bit [OF assms(1)])
qed

lemma readGroup_past_end:
  "length encoded \<le> index \<Longrightarrow> readGroup encoded index shift result = Some (result, index + 1)"
  by (subst readGroup.simps)
     (simp add: charCodeAt_past_end minus_js_def accumulate_NaN ge_js_def)

lemma readGroup_last:
  assumes "v < 32" and "a < 2 ^ s" and "s < 32"
  shows "readGroup (pre @ char_of (v + 63) # rest) (length pre) s (of_nat a)
         = Some (of_nat (a + v * 2 ^ s), length pre + 1)"
proof -
  have code: "(of_char (char_of (v + 63)) :: nat) = v + 63"
    using assms(1) by simp
  have acc: "accumulate (of_nat a) (Some (int v)) s = of_nat (a + v * 2 ^ s)"
    using accumulate_of_nat [OF assms(2,3), of v] assms(1) by simp
  show ?thesis
    using assms(1)
    by (subst readGroup.simps)
       (simp add: charCodeAt_append code minus_js_def ge_js_def acc)
qed

lemma readGroup_continue:
  assumes "m < 32" and "a < 2 ^ s" and "s < 32"
  shows "readGroup (pre @ char_of (95 + m) # rest) (length pre) s (of_nat a)
         = readGroup ((pre @ [char_of (95 + m)]) @ rest)
             (length (pre @ [char_of (95 + m)])) (s + 5) (of_nat (a + m * 2 ^ s))"
proof -
  have code: "(95 + m) mod 256 = 95 + m"
    using assms(1) by simp
  have "accumulate (of_nat a) (Some (int (32 + m))) s = of_nat (a + (32 + m) mod 32 * 2 ^ s)"
    by (rule accumulate_of_nat [OF assms(2,3)])
  then have acc: "accumulate (of_nat a) (Some (32 + int m)) s = of_nat (a + m * 2 ^ s)"
    using assms(1) by simp
  show ?thesis
    by (subst readGroup.simps)
       (simp add: charCodeAt_append code minus_js_def ge_js_def acc Let_def)
qed

lemma readGroup_encodeUnsigned:
  assumes "a < 2 ^ s" and "s < 32" and "v * 2 ^ s < 2 ^ 32"
  shows "readGroup (pre @ encodeUnsigned v @ rest) (length pre) s (of_nat a)
         = Some (of_nat (a + v * 2 ^ s), length pre + length (encodeUnsigned v))"
  using assms
proof (induction v arbitrary: pre s a rule: encodeUnsigned.induct)
  case (1 v)
  show ?case
  proof (cases "v \<ge> 32")
    case False
    then have enc: "encodeUnsigned v = [char_of (v + 63)]"
      by (subst encodeUnsigned.simps) simp
    from False have "v < 32" by simp
    from readGroup_last [OF this "1.prems"(1,2)] show ?thesis
      by (simp add: enc)
  next
    case True
    let ?c = "char_of (95 + v mod 32) :: char"
    have enc: "encodeUnsigned v = ?c # encodeUnsigned (v div 32)"
      using True by (subst encodeUnsigned.simps) simp
    have p5: "(2::nat) ^ (s + 5) = 32 * 2 ^ s" by (simp add: power_add)
    also have "\<dots> \<le> v * 2 ^ s" using True by simp
    finally have le: "(2::nat) ^ (s + 5) \<le> v * 2 ^ s" .
    have s5: "s + 5 < 32"
    proof (rule ccontr)
      assume "\<not> s + 5 < 32"
      then have "(2::nat) ^ 32 \<le> 2 ^ (s + 5)" by (intro power_increasing) simp_all
      with le "1.prems"(3) show False by simp
    qed
    have a': "a + v mod 32 * 2 ^ s < 2 ^ (s + 5)"
    proof -
      have "v mod 32 * 2 ^ s \<le> 31 * 2 ^ s" by (intro mult_right_mono) simp_all
      with "1.prems"(1) have "a + v mod 32 * 2 ^ s < 32 * 2 ^ s" by linarith
      then show ?thesis by (simp only: p5)
    qed
    have "v div 32 * 2 ^ (s + 5) = (v div 32 * 32) * 2 ^ s" by (simp add: power_add)
    also have "\<dots> \<le> v * 2 ^ s" by (intro mult_right_mono) simp_all
    finally have v': "v div 32 * 2 ^ (s + 5) < 2 ^ 32" using "1.prems"(3) by simp
    have total: "a + v mod 32 * 2 ^ s + v div 32 * 2 ^ (s + 5) = a + v * 2 ^ s"
    proof -
      have "v mod 32 * 2 ^ s + v div 32 * 2 ^ (s + 5) = (v mod 32 + v div 32 * 32) * 2 ^ s"
        by (simp only: p5 distrib_right mult.assoc)
      also have "\<dots> = v * 2 ^ s"
        by (simp only: mod_div_mult_eq)
      finally show ?thesis by simp
    qed
    have "readGroup (pre @ encodeUnsigned v @ rest) (length pre) s (of_nat a)
        = readGroup ((pre @ [?c]) @ encodeUnsigned (v div 32) @ rest) (length (pre @ [?c]))
            (s + 5) (of_nat (a + v mod 32 * 2 ^ s))"
      using readGroup_continue [of "v mod 32" a s pre "encodeUnsigned (v div 32) @ rest"]
        "1.prems"(1,2)
      by (simp add: enc)
    also have "\<dots> = Some (of_nat (a + v mod 32 * 2 ^ s + v div 32 * 2 ^ (s + 5)),
        length (pre @ [?c]) + length (encodeUnsigned (v div 32)))"
      by (rule "1.IH" [OF True a' s5 v'])
    finally show ?thesis
      by (simp add: total enc)
  qed
qed

lemma readGroup_encodeSigned:
  assumes "- (2 ^ 30) \<le> d" and "d < 2 ^ 30"
  shows "readGroup (pre @ encodeSigned d @ rest) (length pre) 0 0
         = Some (of_nat (zigzag d), length pre + length (encodeSigned d))"
  using readGroup_encodeUnsigned [of 0 0 "zigzag d" pre rest] zigzag_bound [OF assms]
  by (simp add: encodeSigned_def)


subsection \<open>Both loops return\<close>

lemma readGroup_total:
  "\<exists>r i'. readGroup encoded index shift result = Some (r, i') \<and> index < i'"
proof (induction "length encoded - index" arbitrary: index shift result)
  case 0
  then have "length encoded \<le> index" by simp
  then show ?case by (simp add: readGroup_past_end)
next
  case (Suc n)
  show ?case
  proof (cases "ge_js (minus_js (charCodeAt encoded index) 63) 0x20")
    case True
    from Suc.hyps(2) have "n = length encoded - (index + 1)" by simp
    from Suc.hyps(1) [OF this] obtain r i' where
      "readGroup encoded (index + 1) (shift + 5)
         (accumulate result (minus_js (charCodeAt encoded index) 63) shift) = Some (r, i')"
      and "index + 1 < i'"
      by blast
    with True show ?thesis
      by (subst readGroup.simps) (simp add: Let_def)
  next
    case False
    then show ?thesis
      by (subst readGroup.simps) (simp add: Let_def)
  qed
qed

lemma decodeLoop_step:
  assumes "index < length encoded"
    and "readGroup encoded index 0 0 = Some (result1, index1)"
    and "readGroup encoded index1 0 0 = Some (result2, index2)"
  shows "decodeLoop encoded index lat lng points
       = decodeLoop encoded index2 (lat + delta result1) (lng + delta result2)
           (points @ [fromE5 (lat + delta result1, lng + delta result2)])"
  using assms by (subst decodeLoop.simps) (simp add: fromE5_def)

lemma decodeLoop_done:
  "length encoded \<le> index \<Longrightarrow> decodeLoop encoded index lat lng points = Some points"
  by (subst decodeLoop.simps) simp

lemma decodeLoop_total:
  "\<exists>pts. decodeLoop encoded index lat lng points = Some pts
         \<and> length pts \<le> length points + (length encoded + 1 - index) div 2"
proof (induction "length encoded - index" arbitrary: index lat lng points rule: less_induct)
  case less
  show ?case
  proof (cases "index < length encoded")
    case False
    then show ?thesis by (simp add: decodeLoop_done)
  next
    case True
    obtain result1 index1 where r1: "readGroup encoded index 0 0 = Some (result1, index1)"
      and i1: "index < index1"
      using readGroup_total [of encoded index 0 0] by blast
    obtain result2 index2 where r2: "readGroup encoded index1 0 0 = Some (result2, index2)"
      and i2: "index1 < index2"
      using readGroup_total [of encoded index1 0 0] by blast
    let ?points = "points @ [fromE5 (lat + delta result1, lng + delta result2)]"
    from True i1 i2 have "length encoded - index2 < length encoded - index" by simp
    from less [OF this] obtain pts where
      pts: "decodeLoop encoded index2 (lat + delta result1) (lng + delta result2) ?points = Some pts"
      and len: "length pts \<le> length ?points + (length encoded + 1 - index2) div 2"
      by blast
    from True i1 i2 have "1 + (length encoded + 1 - index2) div 2 \<le> (length encoded + 1 - index) div 2"
      by arith
    with len have "length pts \<le> length points + (length encoded + 1 - index) div 2"
      by simp
    with pts show ?thesis
      by (simp add: decodeLoop_step [OF True r1 r2])
  qed
qed

subsection \<open>Decoding what the encoder wrote\<close>

lemma encodeUnsigned_nonempty: "encodeUnsigned v \<noteq> []"
  by (subst encodeUnsigned.simps) simp

lemma delta_zero: "delta 0 = 0"
  by (simp add: delta_def)

lemma inRange_delta:
  assumes "inRange (lat, lng)" and "inRange (la, lo)"
  shows "- (2 ^ 30) \<le> la - lat" and "la - lat < 2 ^ 30"
    and "- (2 ^ 30) \<le> lo - lng" and "lo - lng < 2 ^ 30"
  using assms by (simp_all add: inRange_def) linarith+

lemma decodeLoop_encodeE5:
  assumes "inRange (lat, lng)" and "\<forall>q \<in> set qs. inRange q"
  shows "decodeLoop (pre @ encodeE5 lat lng qs @ rest) (length pre) lat lng points
       = decodeLoop (pre @ encodeE5 lat lng qs @ rest) (length pre + length (encodeE5 lat lng qs))
           (fst (last ((lat, lng) # qs))) (snd (last ((lat, lng) # qs)))
           (points @ map fromE5 qs)"
  using assms
proof (induction qs arbitrary: pre lat lng points)
  case Nil
  show ?case by simp
next
  case (Cons q qs)
  obtain la lo where q: "q = (la, lo)" by (cases q)
  let ?e1 = "encodeSigned (la - lat)" and ?e2 = "encodeSigned (lo - lng)"
  let ?s = "pre @ encodeE5 lat lng (q # qs) @ rest"
  from Cons.prems have rq: "inRange (la, lo)" and rqs: "\<forall>q \<in> set qs. inRange q"
    by (simp_all add: q)
  note d = inRange_delta [OF Cons.prems(1) rq]
  have s1: "?s = pre @ ?e1 @ (?e2 @ encodeE5 la lo qs @ rest)"
    and s2: "?s = (pre @ ?e1) @ ?e2 @ (encodeE5 la lo qs @ rest)"
    and s3: "?s = (pre @ ?e1 @ ?e2) @ encodeE5 la lo qs @ rest"
    by (simp_all add: q)
  have "?e1 \<noteq> []" by (simp add: encodeSigned_def encodeUnsigned_nonempty)
  then have lt: "length pre < length ?s" by (simp add: q)
  have r1: "readGroup ?s (length pre) 0 0 = Some (of_nat (zigzag (la - lat)), length (pre @ ?e1))"
    unfolding s1 using readGroup_encodeSigned [OF d(1,2)] by simp
  have r2: "readGroup ?s (length (pre @ ?e1)) 0 0
      = Some (of_nat (zigzag (lo - lng)), length (pre @ ?e1 @ ?e2))"
    unfolding s2 using readGroup_encodeSigned [OF d(3,4), of "pre @ ?e1"] by simp
  have "decodeLoop ?s (length pre) lat lng points
      = decodeLoop ?s (length (pre @ ?e1 @ ?e2)) la lo (points @ [fromE5 (la, lo)])"
    using decodeLoop_step [OF lt r1 r2, of lat lng points]
    by (simp add: delta_zigzag [OF d(1,2)] delta_zigzag [OF d(3,4)])
  also have "\<dots> = decodeLoop ?s (length (pre @ ?e1 @ ?e2) + length (encodeE5 la lo qs))
           (fst (last ((la, lo) # qs))) (snd (last ((la, lo) # qs)))
           ((points @ [fromE5 (la, lo)]) @ map fromE5 qs)"
    unfolding s3 by (rule Cons.IH [OF rq rqs])
  finally show ?case
    by (simp add: q add.assoc)
qed

lemma decodePolyline_encodeE5:
  assumes "\<forall>q \<in> set qs. inRange q"
  shows "decodePolyline (encodeE5 0 0 qs) = Some (map fromE5 qs)"
proof -
  have "inRange (0, 0)" by (simp add: inRange_def)
  from decodeLoop_encodeE5 [OF this assms, of "[]" "[]" "[]"] show ?thesis
    by (simp add: decodePolyline_def decodeLoop_done)
qed

lemma decodePolyline_lone_group:
  assumes "\<forall>q \<in> set qs. inRange q" and "- (2 ^ 30) \<le> d" and "d < 2 ^ 30"
  shows "decodePolyline (encodeE5 0 0 qs @ encodeSigned d)
       = Some (map fromE5 qs @ [fromE5 (fst (last ((0, 0) # qs)) + d, snd (last ((0, 0) # qs)))])"
proof -
  let ?s = "encodeE5 0 0 qs @ encodeSigned d"
  let ?n = "length (encodeE5 0 0 qs)"
  have "encodeSigned d \<noteq> []" by (simp add: encodeSigned_def encodeUnsigned_nonempty)
  then have lt: "?n < length ?s" by simp
  have r1: "readGroup ?s ?n 0 0 = Some (of_nat (zigzag d), length ?s)"
    using readGroup_encodeSigned [OF assms(2,3), of "encodeE5 0 0 qs" "[]"] by simp
  have r2: "readGroup ?s (length ?s) 0 0 = Some (0, length ?s + 1)"
    by (simp add: readGroup_past_end)
  have "inRange (0, 0)" by (simp add: inRange_def)
  from decodeLoop_encodeE5 [OF this assms(1), of "[]" "encodeSigned d" "[]"]
  have "decodePolyline ?s
      = decodeLoop ?s ?n (fst (last ((0, 0) # qs))) (snd (last ((0, 0) # qs))) (map fromE5 qs)"
    by (simp add: decodePolyline_def)
  also have "\<dots> = decodeLoop ?s (length ?s + 1)
      (fst (last ((0, 0) # qs)) + d) (snd (last ((0, 0) # qs)))
      (map fromE5 qs @ [fromE5 (fst (last ((0, 0) # qs)) + d, snd (last ((0, 0) # qs)))])"
    using decodeLoop_step [OF lt r1 r2]
    by (simp add: delta_zigzag [OF assms(2,3)] delta_zero)
  finally show ?thesis
    by (simp add: decodeLoop_done)
qed


subsection \<open>Rounding to five decimals\<close>

lemma toE5_bound:
  assumes "- b \<le> x" and "x \<le> b" and "b * 100000 = real_of_int k"
  shows "\<bar>toE5 x\<bar> \<le> k"
proof -
  have "round (x * 100000) \<le> round (real_of_int k)"
    using assms by (intro round_mono) simp
  moreover have "round (real_of_int (- k)) \<le> round (x * 100000)"
    using assms by (intro round_mono) simp
  ultimately show ?thesis
    by (simp add: toE5_def round_of_int del: of_int_minus)
qed

lemma validCoordinate_inRange:
  "validCoordinate p \<Longrightarrow> inRange (toE5 (latitude p), toE5 (longitude p))"
  using toE5_bound [of 90 "latitude p" 9000000] toE5_bound [of 180 "longitude p" 18000000]
  by (simp add: validCoordinate_def inRange_def)

lemma toE5_close: "\<bar>real_of_int (toE5 x) / 100000 - x\<bar> \<le> 1 / 200000"
proof -
  have "\<bar>real_of_int (round (x * 100000)) - x * 100000\<bar> \<le> 1 / 2"
    by (rule of_int_round_abs_le)
  moreover have "real_of_int (round (x * 100000)) / 100000 - x
      = (real_of_int (round (x * 100000)) - x * 100000) / 100000"
    by (simp add: field_simps)
  ultimately have "\<bar>real_of_int (round (x * 100000)) / 100000 - x\<bar>
      = \<bar>real_of_int (round (x * 100000)) - x * 100000\<bar> / 100000"
    and "\<bar>real_of_int (round (x * 100000)) - x * 100000\<bar> / 100000 \<le> (1 / 2) / 100000"
    by (simp_all only: abs_divide divide_right_mono abs_numeral zero_le_numeral)
  then show ?thesis
    by (simp add: toE5_def)
qed

lemma decodePolyline_encode_valid:
  assumes "\<forall>p \<in> set ps. validCoordinate p"
  shows "decodePolyline (encode ps) = Some (map roundE5 ps)"
proof -
  have "\<forall>q \<in> set (map (\<lambda>p. (toE5 (latitude p), toE5 (longitude p))) ps). inRange q"
    using assms by (simp add: validCoordinate_inRange)
  from decodePolyline_encodeE5 [OF this] show ?thesis
    by (simp add: encode_def roundE5_def comp_def)
qed

lemma decodePolyline_returns: "\<exists>pts. decodePolyline encoded = Some pts"
  using decodeLoop_total [of encoded 0 0 0 "[]"] by (auto simp: decodePolyline_def)

text \<open>
  Claim C3. For every finite sequence of coordinates within the valid bounds, decoding
  the encoded sequence gives the sequence rounded to five decimals: every decoded
  latitude and longitude differs from the original by at most half a unit of the fifth
  decimal, and a sequence that already has five decimals is decoded to itself.
\<close>

theorem decodePolyline_encode_roundtrip:
  assumes "\<forall>p \<in> set ps. validCoordinate p"
  shows "decodePolyline (encode ps) = Some (map roundE5 ps)
       \<and> (\<forall>p \<in> set ps. \<bar>latitude (roundE5 p) - latitude p\<bar> \<le> 1 / 200000
                        \<and> \<bar>longitude (roundE5 p) - longitude p\<bar> \<le> 1 / 200000)
       \<and> ((\<forall>p \<in> set ps. roundE5 p = p) \<longrightarrow> decodePolyline (encode ps) = Some ps)"
proof -
  have dec: "decodePolyline (encode ps) = Some (map roundE5 ps)"
    by (rule decodePolyline_encode_valid [OF assms])
  have close: "\<forall>p \<in> set ps. \<bar>latitude (roundE5 p) - latitude p\<bar> \<le> 1 / 200000
                        \<and> \<bar>longitude (roundE5 p) - longitude p\<bar> \<le> 1 / 200000"
  proof (intro ballI conjI)
    fix p
    show "\<bar>latitude (roundE5 p) - latitude p\<bar> \<le> 1 / 200000"
      using toE5_close [of "latitude p"] by (simp add: roundE5_def fromE5_def)
    show "\<bar>longitude (roundE5 p) - longitude p\<bar> \<le> 1 / 200000"
      using toE5_close [of "longitude p"] by (simp add: roundE5_def fromE5_def)
  qed
  have exact: "(\<forall>p \<in> set ps. roundE5 p = p) \<longrightarrow> decodePolyline (encode ps) = Some ps"
    by (simp add: dec map_idI)
  from dec close exact show ?thesis by blast
qed

theorem decodePolyline_encode_roundtrip_witness:
  "validCoordinate \<lparr>latitude = 38.5, longitude = - 120.2\<rparr>
   \<and> validCoordinate \<lparr>latitude = 40.7, longitude = - 120.95\<rparr>
   \<and> roundE5 \<lparr>latitude = 38.5, longitude = - 120.2\<rparr> = \<lparr>latitude = 38.5, longitude = - 120.2\<rparr>
   \<and> roundE5 \<lparr>latitude = 40.7, longitude = - 120.95\<rparr> = \<lparr>latitude = 40.7, longitude = - 120.95\<rparr>
   \<and> decodePolyline
        (encode [\<lparr>latitude = 38.5, longitude = - 120.2\<rparr>, \<lparr>latitude = 40.7, longitude = - 120.95\<rparr>])
       = Some [\<lparr>latitude = 38.5, longitude = - 120.2\<rparr>, \<lparr>latitude = 40.7, longitude = - 120.95\<rparr>]"
proof -
  let ?p1 = "\<lparr>latitude = 38.5, longitude = - 120.2\<rparr>"
  let ?p2 = "\<lparr>latitude = 40.7, longitude = - 120.95\<rparr>"
  have v1: "validCoordinate ?p1" and v2: "validCoordinate ?p2"
    by (simp_all add: validCoordinate_def)
  have g1: "roundE5 ?p1 = ?p1" and g2: "roundE5 ?p2 = ?p2"
    by (simp_all add: roundE5_def fromE5_def toE5_def)
  have valid: "\<forall>p \<in> set [?p1, ?p2]. validCoordinate p"
    using v1 v2 by simp
  have grid: "\<forall>p \<in> set [?p1, ?p2]. roundE5 p = p"
    using g1 g2 by simp
  from decodePolyline_encode_roundtrip [OF valid] grid
  have "decodePolyline (encode [?p1, ?p2]) = Some [?p1, ?p2]" by blast
  with v1 v2 g1 g2 show ?thesis by blast
qed

lemma encode_example:
  "encode [\<lparr>latitude = 38.5, longitude = - 120.2\<rparr>, \<lparr>latitude = 40.7, longitude = - 120.95\<rparr>]
   = ''_p~iF~ps|U_ulLnnqC''"
  by (simp add: encode_def toE5_def encodeSigned_def zigzag_def encodeUnsigned.simps char_of_eq_iff)


lemmas decodePolyline_eval =
  decodePolyline_def decodeLoop.simps readGroup.simps charCodeAt_def minus_js_def
  accumulate_def toInt32_def ge_js_def delta_def Let_def

text \<open>
  Claim C4, as stated, fails. The decoder has no failure path. The string \<open>_p~iF\<close> holds
  one group, a latitude without its longitude, and is decoded to one point whose
  longitude is 0; the string \<open>_p~iF~ps|U_\<close> ends in a character whose continuation bit
  is set, and is decoded to two points.
\<close>

theorem decodePolyline_truncated_counterexample:
  "decodePolyline ''_p~iF'' = Some [\<lparr>latitude = 38.5, longitude = 0\<rparr>]
   \<and> decodePolyline ''_p~iF~ps|U_''
       = Some [\<lparr>latitude = 38.5, longitude = - 120.2\<rparr>, \<lparr>latitude = 38.5, longitude = - 120.2\<rparr>]"
  by (simp add: decodePolyline_eval)

lemma last_roundE5:
  "fromE5 (fst (last ((0, 0) # map (\<lambda>p. (toE5 (latitude p), toE5 (longitude p))) ps)) + d,
           snd (last ((0, 0) # map (\<lambda>p. (toE5 (latitude p), toE5 (longitude p))) ps)))
   = \<lparr>latitude = latitude (last (\<lparr>latitude = 0, longitude = 0\<rparr> # map roundE5 ps))
                    + real_of_int d / 100000,
      longitude = longitude (last (\<lparr>latitude = 0, longitude = 0\<rparr> # map roundE5 ps))\<rparr>"
  by (cases "ps = []") (simp_all add: fromE5_def roundE5_def last_map add_divide_distrib)

subsection \<open>A string that ends in a continuation character\<close>

lemma accumulate_payload:
  "accumulate result (Some (int k)) shift = accumulate result (Some (int (k mod 32))) shift"
  by (simp add: accumulate_def toInt32_and_0x1f)

lemma charCodeAt_prefix: "i < length s \<Longrightarrow> charCodeAt (s @ t) i = charCodeAt s i"
  by (simp add: charCodeAt_def nth_append)

lemma readGroup_unterminated_end:
  assumes "95 \<le> (of_char c :: nat)"
  shows "readGroup (s @ [c]) (length s) shift result
           = Some (accumulate result (Some (int ((of_char c - 63) mod 32))) shift, length s + 2)"
    and "readGroup (s @ [char_of (63 + (of_char c - 63) mod 32 :: nat)]) (length s) shift result
           = Some (accumulate result (Some (int ((of_char c - 63) mod 32))) shift, length s + 1)"
proof -
  let ?k = "(of_char c :: nat) - 63"
  let ?c' = "char_of (63 + ?k mod 32) :: char"
  have m: "minus_js (Some (int (of_char c))) 63 = Some (int ?k)"
    using assms by (simp add: minus_js_def)
  have g: "ge_js (Some (int ?k)) 0x20"
    using assms by (simp add: ge_js_def)
  have past: "readGroup (s @ [c]) (length s + 1) (shift + 5)
        (accumulate result (Some (int ?k)) shift)
      = Some (accumulate result (Some (int ?k)) shift, length s + 1 + 1)"
    by (rule readGroup_past_end) simp
  have "readGroup (s @ [c]) (length s) shift result
      = Some (accumulate result (Some (int ?k)) shift, length s + 1 + 1)"
    by (subst readGroup.simps) (simp only: charCodeAt_append m Let_def g if_True past)
  then show "readGroup (s @ [c]) (length s) shift result
           = Some (accumulate result (Some (int (?k mod 32))) shift, length s + 2)"
    by (simp only: accumulate_payload [of result ?k shift]) simp
  have "(63 + ?k mod 32) mod 256 = 63 + ?k mod 32"
    by simp
  then have cc: "charCodeAt (s @ [?c']) (length s) = Some (int (63 + ?k mod 32))"
    by (simp only: charCodeAt_append of_char_of)
  have m': "minus_js (Some (int (63 + ?k mod 32))) 63 = Some (int (?k mod 32))"
    by (simp add: minus_js_def)
  have g': "\<not> ge_js (Some (int (?k mod 32))) 0x20"
    by (simp add: ge_js_def)
  show "readGroup (s @ [?c']) (length s) shift result
           = Some (accumulate result (Some (int (?k mod 32))) shift, length s + 1)"
    by (subst readGroup.simps) (simp only: cc m' Let_def g' if_False)
qed

lemma readGroup_unterminated_inside:
  assumes "95 \<le> (of_char c :: nat)" and "index \<le> length s"
  shows "\<exists>r i i'. readGroup (s @ [c]) index shift result = Some (r, i)
           \<and> readGroup (s @ [char_of (63 + (of_char c - 63) mod 32 :: nat)]) index shift result
               = Some (r, i')
           \<and> index < i \<and> (i = i' \<or> (length s < i \<and> length s < i'))"
  using assms(2)
proof (induction "length s - index" arbitrary: index shift result)
  case 0
  then have "index = length s" by simp
  with readGroup_unterminated_end [OF assms(1), of s shift result] show ?case by simp
next
  case (Suc n)
  let ?c' = "char_of (63 + (of_char c - 63) mod 32 :: nat) :: char"
  let ?byte = "minus_js (charCodeAt s index) 63"
  from Suc.hyps(2) have lt: "index < length s" by simp
  have b1: "minus_js (charCodeAt (s @ [c]) index) 63 = ?byte"
    and b2: "minus_js (charCodeAt (s @ [?c']) index) 63 = ?byte"
    using lt by (simp_all add: charCodeAt_prefix)
  show ?case
  proof (cases "ge_js ?byte 0x20")
    case True
    from Suc.hyps(2) lt have "n = length s - (index + 1)" and "index + 1 \<le> length s" by simp_all
    from Suc.hyps(1) [OF this, of "shift + 5" "accumulate result ?byte shift"]
    obtain r i i' where
      "readGroup (s @ [c]) (index + 1) (shift + 5) (accumulate result ?byte shift) = Some (r, i)"
      and "readGroup (s @ [?c']) (index + 1) (shift + 5) (accumulate result ?byte shift) = Some (r, i')"
      and "index + 1 < i" and "i = i' \<or> (length s < i \<and> length s < i')"
      by blast
    moreover have "readGroup (s @ [c]) index shift result
        = readGroup (s @ [c]) (index + 1) (shift + 5) (accumulate result ?byte shift)"
      using True by (subst readGroup.simps) (simp add: b1 Let_def)
    moreover have "readGroup (s @ [?c']) index shift result
        = readGroup (s @ [?c']) (index + 1) (shift + 5) (accumulate result ?byte shift)"
      using True by (subst readGroup.simps) (simp add: b2 Let_def)
    ultimately show ?thesis by auto
  next
    case False
    have "readGroup (s @ [c]) index shift result = Some (accumulate result ?byte shift, index + 1)"
      using False by (subst readGroup.simps) (simp add: b1 Let_def)
    moreover have "readGroup (s @ [?c']) index shift result
        = Some (accumulate result ?byte shift, index + 1)"
      using False by (subst readGroup.simps) (simp add: b2 Let_def)
    ultimately show ?thesis by simp
  qed
qed

lemma readGroup_unterminated:
  assumes "95 \<le> (of_char c :: nat)"
    and "index = index' \<or> (length s < index \<and> length s < index')"
  shows "\<exists>r i i'. readGroup (s @ [c]) index shift result = Some (r, i)
           \<and> readGroup (s @ [char_of (63 + (of_char c - 63) mod 32 :: nat)]) index' shift result
               = Some (r, i')
           \<and> index < i \<and> (i = i' \<or> (length s < i \<and> length s < i'))"
proof (cases "index \<le> length s")
  case True
  with assms(2) have "index = index'" by auto
  with readGroup_unterminated_inside [OF assms(1) True, of shift result] show ?thesis by simp
next
  case False
  with assms(2) have "length s < index" and "length s < index'" by auto
  then show ?thesis by (simp add: readGroup_past_end)
qed

lemma decodeLoop_unterminated:
  assumes "95 \<le> (of_char c :: nat)"
    and "index = index' \<or> (length s < index \<and> length s < index')"
  shows "decodeLoop (s @ [c]) index lat lng points
       = decodeLoop (s @ [char_of (63 + (of_char c - 63) mod 32 :: nat)]) index' lat lng points"
  using assms(2)
proof (induction "length s + 1 - index" arbitrary: index index' lat lng points rule: less_induct)
  case less
  let ?t = "s @ [c]" and ?t' = "s @ [char_of (63 + (of_char c - 63) mod 32 :: nat)]"
  show ?case
  proof (cases "index \<le> length s")
    case False
    with less.prems have "length ?t \<le> index" and "length ?t' \<le> index'" by auto
    then show ?thesis by (simp only: decodeLoop_done)
  next
    case True
    with less.prems have same: "index = index'" by auto
    from True have lt: "index < length ?t" and lt': "index' < length ?t'"
      by (simp_all add: same [symmetric])
    obtain r1 i1 i1' where a1: "readGroup ?t index 0 0 = Some (r1, i1)"
      and a1': "readGroup ?t' index' 0 0 = Some (r1, i1')"
      and p1: "index < i1" and rel1: "i1 = i1' \<or> (length s < i1 \<and> length s < i1')"
      using readGroup_unterminated [OF assms(1) less.prems, of 0 0] by blast
    obtain r2 i2 i2' where a2: "readGroup ?t i1 0 0 = Some (r2, i2)"
      and a2': "readGroup ?t' i1' 0 0 = Some (r2, i2')"
      and p2: "i1 < i2" and rel2: "i2 = i2' \<or> (length s < i2 \<and> length s < i2')"
      using readGroup_unterminated [OF assms(1) rel1, of 0 0] by blast
    from True p1 p2 have "length s + 1 - i2 < length s + 1 - index" by simp
    from less.hyps [OF this rel2]
    have "decodeLoop ?t i2 (lat + delta r1) (lng + delta r2)
            (points @ [fromE5 (lat + delta r1, lng + delta r2)])
        = decodeLoop ?t' i2' (lat + delta r1) (lng + delta r2)
            (points @ [fromE5 (lat + delta r1, lng + delta r2)])" .
    then show ?thesis
      by (simp only: decodeLoop_step [OF lt a1 a2] decodeLoop_step [OF lt' a1' a2'])
  qed
qed

lemma decodePolyline_unterminated:
  "95 \<le> (of_char c :: nat) \<Longrightarrow>
   decodePolyline (s @ [c]) = decodePolyline (s @ [char_of (63 + (of_char c - 63) mod 32 :: nat)])"
  unfolding decodePolyline_def by (rule decodeLoop_unterminated) simp_all

subsection \<open>At least one point\<close>

lemma decodeLoop_extends:
  "\<exists>pts. decodeLoop encoded index lat lng points = Some pts \<and> length points \<le> length pts"
proof (induction "length encoded - index" arbitrary: index lat lng points rule: less_induct)
  case less
  show ?case
  proof (cases "index < length encoded")
    case False
    then show ?thesis by (simp add: decodeLoop_done)
  next
    case True
    obtain result1 index1 where r1: "readGroup encoded index 0 0 = Some (result1, index1)"
      and i1: "index < index1"
      using readGroup_total [of encoded index 0 0] by blast
    obtain result2 index2 where r2: "readGroup encoded index1 0 0 = Some (result2, index2)"
      and i2: "index1 < index2"
      using readGroup_total [of encoded index1 0 0] by blast
    let ?points = "points @ [fromE5 (lat + delta result1, lng + delta result2)]"
    from True i1 i2 have "length encoded - index2 < length encoded - index" by simp
    from less [OF this] obtain pts where
      "decodeLoop encoded index2 (lat + delta result1) (lng + delta result2) ?points = Some pts"
      and "length ?points \<le> length pts"
      by blast
    then show ?thesis
      by (simp add: decodeLoop_step [OF True r1 r2])
  qed
qed

lemma decodePolyline_nonempty:
  assumes "encoded \<noteq> []"
  shows "\<exists>pts. decodePolyline encoded = Some pts \<and> pts \<noteq> []"
proof -
  from assms have lt: "0 < length encoded" by simp
  obtain result1 index1 where r1: "readGroup encoded 0 0 0 = Some (result1, index1)"
    using readGroup_total [of encoded 0 0 0] by blast
  obtain result2 index2 where r2: "readGroup encoded index1 0 0 = Some (result2, index2)"
    using readGroup_total [of encoded index1 0 0] by blast
  from decodeLoop_extends [of encoded index2 "0 + delta result1" "0 + delta result2"
      "[] @ [fromE5 (0 + delta result1, 0 + delta result2)]"]
  obtain pts where "decodeLoop encoded index2 (0 + delta result1) (0 + delta result2)
      ([] @ [fromE5 (0 + delta result1, 0 + delta result2)]) = Some pts"
    and "1 \<le> length pts"
    by auto
  then show ?thesis
    unfolding decodePolyline_def decodeLoop_step [OF lt r1 r2] by auto
qed

text \<open>
  Claim C4, amended. Decoding never fails: every string, truncated or not, is decoded
  to a list of points, which has at least one point when the string is not empty. A
  string that ends in a character whose continuation bit is set (a code of 95 or more)
  is decoded exactly as the same string with that bit of its last character cleared:
  the payload of the character is used and the group is cut off at the end of the
  string. A string that the encoder produced from coordinates within the valid bounds
  is decoded to these coordinates, rounded to five decimals. When such a string is
  followed by one more group (a latitude delta \<open>d\<close> without its longitude, with
  \<open>d\<close> at least \<open>- 2 ^ 30\<close> and below \<open>2 ^ 30\<close> units of the fifth decimal, which
  holds of every difference of two valid coordinates), the decoder returns the points of
  the string and one point more, the last point moved by \<open>d\<close> in latitude and not
  moved in longitude.
\<close>

theorem decodePolyline_truncated:
  "(\<exists>pts. decodePolyline encoded = Some pts \<and> (encoded \<noteq> [] \<longrightarrow> pts \<noteq> []))
   \<and> (95 \<le> (of_char c :: nat) \<longrightarrow>
        decodePolyline (s @ [c])
          = decodePolyline (s @ [char_of (63 + (of_char c - 63) mod 32 :: nat)]))
   \<and> ((\<forall>p \<in> set ps. validCoordinate p) \<longrightarrow>
        decodePolyline (encode ps) = Some (map roundE5 ps))
   \<and> ((\<forall>p \<in> set ps. validCoordinate p) \<and> - (2 ^ 30) \<le> d \<and> d < 2 ^ 30 \<longrightarrow>
        decodePolyline (encode ps @ encodeSigned d)
          = Some (map roundE5 ps @
              [\<lparr>latitude = latitude (last (\<lparr>latitude = 0, longitude = 0\<rparr> # map roundE5 ps))
                            + real_of_int d / 100000,
                longitude = longitude (last (\<lparr>latitude = 0, longitude = 0\<rparr> # map roundE5 ps))\<rparr>]))"
proof -
  have returns: "\<exists>pts. decodePolyline encoded = Some pts \<and> (encoded \<noteq> [] \<longrightarrow> pts \<noteq> [])"
    using decodePolyline_returns [of encoded] decodePolyline_nonempty [of encoded] by auto
  have cut: "95 \<le> (of_char c :: nat) \<longrightarrow>
        decodePolyline (s @ [c])
          = decodePolyline (s @ [char_of (63 + (of_char c - 63) mod 32 :: nat)])"
    using decodePolyline_unterminated [of c s] by blast
  have whole: "(\<forall>p \<in> set ps. validCoordinate p) \<longrightarrow>
        decodePolyline (encode ps) = Some (map roundE5 ps)"
    using decodePolyline_encode_valid [of ps] by blast
  have lone: "(\<forall>p \<in> set ps. validCoordinate p) \<and> - (2 ^ 30) \<le> d \<and> d < 2 ^ 30 \<longrightarrow>
        decodePolyline (encode ps @ encodeSigned d)
          = Some (map roundE5 ps @
              [\<lparr>latitude = latitude (last (\<lparr>latitude = 0, longitude = 0\<rparr> # map roundE5 ps))
                            + real_of_int d / 100000,
                longitude = longitude (last (\<lparr>latitude = 0, longitude = 0\<rparr> # map roundE5 ps))\<rparr>])"
  proof (intro impI, elim conjE)
    assume valid: "\<forall>p \<in> set ps. validCoordinate p" and lo: "- (2 ^ 30) \<le> d" and hi: "d < 2 ^ 30"
    have "\<forall>q \<in> set (map (\<lambda>p. (toE5 (latitude p), toE5 (longitude p))) ps). inRange q"
      using valid by (simp add: validCoordinate_inRange)
    from decodePolyline_lone_group [OF this lo hi]
    show "decodePolyline (encode ps @ encodeSigned d)
          = Some (map roundE5 ps @
              [\<lparr>latitude = latitude (last (\<lparr>latitude = 0, longitude = 0\<rparr> # map roundE5 ps))
                            + real_of_int d / 100000,
                longitude = longitude (last (\<lparr>latitude = 0, longitude = 0\<rparr> # map roundE5 ps))\<rparr>])"
      unfolding last_roundE5 by (simp add: encode_def roundE5_def comp_def)
  qed
  from returns cut whole lone show ?thesis by blast
qed

text \<open>
  The string \<open>_p~if\<close> ends in a continuation character and is decoded as \<open>_p~iF\<close>,
  to one point. One encoded point, followed by a lone latitude delta of 2 degrees, is
  decoded to two points.
\<close>

theorem decodePolyline_truncated_witness:
  "95 \<le> (of_char (CHR ''f'') :: nat)
   \<and> decodePolyline ''_p~if'' = Some [\<lparr>latitude = 38.5, longitude = 0\<rparr>]
   \<and> validCoordinate \<lparr>latitude = 38, longitude = - 120\<rparr>
   \<and> - (2 ^ 30) \<le> (200000 :: int) \<and> (200000 :: int) < 2 ^ 30
   \<and> decodePolyline (encode [\<lparr>latitude = 38, longitude = - 120\<rparr>])
       = Some [\<lparr>latitude = 38, longitude = - 120\<rparr>]
   \<and> decodePolyline (encode [\<lparr>latitude = 38, longitude = - 120\<rparr>] @ encodeSigned 200000)
       = Some [\<lparr>latitude = 38, longitude = - 120\<rparr>, \<lparr>latitude = 40, longitude = - 120\<rparr>]"
proof -
  note inst = decodePolyline_truncated
    [of "''_p~if''" "CHR ''f''" "''_p~i''" "[\<lparr>latitude = 38, longitude = - 120\<rparr>]" 200000]
  have cont: "95 \<le> (of_char (CHR ''f'') :: nat)"
    by simp
  have last_char: "char_of (63 + (of_char (CHR ''f'') - 63) mod 32 :: nat) = CHR ''F''"
    by (simp add: char_of_eq_iff)
  from inst cont have "decodePolyline (''_p~i'' @ [CHR ''f''])
      = decodePolyline (''_p~i'' @ [char_of (63 + (of_char (CHR ''f'') - 63) mod 32 :: nat)])"
    by blast
  then have same: "decodePolyline ''_p~if'' = decodePolyline ''_p~iF''"
    by (simp only: last_char append.simps)
  have "decodePolyline ''_p~iF'' = Some [\<lparr>latitude = 38.5, longitude = 0\<rparr>]"
    by (simp add: decodePolyline_eval)
  with same have cut: "decodePolyline ''_p~if'' = Some [\<lparr>latitude = 38.5, longitude = 0\<rparr>]"
    by (rule trans)
  have v: "validCoordinate \<lparr>latitude = 38, longitude = - 120\<rparr>"
    by (simp add: validCoordinate_def)
  then have valid: "\<forall>p \<in> set [\<lparr>latitude = 38, longitude = - 120\<rparr>]. validCoordinate p"
    by simp
  have lo: "- (2 ^ 30) \<le> (200000 :: int)" and hi: "(200000 :: int) < 2 ^ 30"
    by simp_all
  have r: "roundE5 \<lparr>latitude = 38, longitude = - 120\<rparr> = \<lparr>latitude = 38, longitude = - 120\<rparr>"
    by (simp add: roundE5_def fromE5_def toE5_def)
  from inst valid have "decodePolyline (encode [\<lparr>latitude = 38, longitude = - 120\<rparr>])
      = Some (map roundE5 [\<lparr>latitude = 38, longitude = - 120\<rparr>])"
    by blast
  then have whole: "decodePolyline (encode [\<lparr>latitude = 38, longitude = - 120\<rparr>])
      = Some [\<lparr>latitude = 38, longitude = - 120\<rparr>]"
    by (simp add: r)
  from inst valid lo hi
  have "decodePolyline (encode [\<lparr>latitude = 38, longitude = - 120\<rparr>] @ encodeSigned 200000)
      = Some (map roundE5 [\<lparr>latitude = 38, longitude = - 120\<rparr>] @
          [\<lparr>latitude = latitude (last (\<lparr>latitude = 0, longitude = 0\<rparr>
                         # map roundE5 [\<lparr>latitude = 38, longitude = - 120\<rparr>]))
                        + real_of_int 200000 / 100000,
            longitude = longitude (last (\<lparr>latitude = 0, longitude = 0\<rparr>
                         # map roundE5 [\<lparr>latitude = 38, longitude = - 120\<rparr>]))\<rparr>])"
    by blast
  then have lone: "decodePolyline (encode [\<lparr>latitude = 38, longitude = - 120\<rparr>] @ encodeSigned 200000)
       = Some [\<lparr>latitude = 38, longitude = - 120\<rparr>, \<lparr>latitude = 40, longitude = - 120\<rparr>]"
    by (simp add: r)
  from cont cut v lo hi whole lone show ?thesis by blast
qed

text \<open>
  Claim C9. \<open>decodePolyline\<close> returns for every string, with at most one point for
  every two characters. The inner loop returns from every index, shift and accumulated
  value, at an index strictly above the one it started from, so the index of the outer
  loop increases in every round; from an index at or beyond the end of the string it
  reads \<open>NaN\<close>, leaves the accumulated value as it is and stops after this one step.
\<close>

theorem decodePolyline_total:
  "(\<exists>pts. decodePolyline encoded = Some pts \<and> length pts \<le> (length encoded + 1) div 2)
   \<and> (\<forall>index shift result. \<exists>r i'. readGroup encoded index shift result = Some (r, i') \<and> index < i')
   \<and> (\<forall>index shift result. length encoded \<le> index \<longrightarrow>
         charCodeAt encoded index = None
         \<and> readGroup encoded index shift result = Some (result, index + 1))"
proof -
  have ret: "\<exists>pts. decodePolyline encoded = Some pts \<and> length pts \<le> (length encoded + 1) div 2"
    using decodeLoop_total [of encoded 0 0 0 "[]"] by (simp add: decodePolyline_def)
  have inner: "\<forall>index shift result. \<exists>r i'. readGroup encoded index shift result = Some (r, i') \<and> index < i'"
    by (simp add: readGroup_total)
  have past: "\<forall>index shift result. length encoded \<le> index \<longrightarrow>
         charCodeAt encoded index = None
         \<and> readGroup encoded index shift result = Some (result, index + 1)"
    by (simp add: readGroup_past_end charCodeAt_past_end)
  from ret inner past show ?thesis by blast
qed

theorem decodePolyline_total_witness:
  "length ''_p~iF'' \<le> 5
   \<and> charCodeAt ''_p~iF'' 5 = None
   \<and> readGroup ''_p~iF'' 5 0 0 = Some (0, 6)
   \<and> (\<exists>pts. decodePolyline ''_p~iF'' = Some pts \<and> length pts \<le> 3)"
proof -
  note total = decodePolyline_total [of "''_p~iF''"]
  have len: "length ''_p~iF'' \<le> 5" by simp
  from total len have "charCodeAt ''_p~iF'' 5 = None"
    and "readGroup ''_p~iF'' 5 0 0 = Some (0, 5 + 1)"
    by blast+
  moreover from total obtain pts where "decodePolyline ''_p~iF'' = Some pts"
    and "length pts \<le> (length ''_p~iF'' + 1) div 2"
    by blast
  then have "\<exists>pts. decodePolyline ''_p~iF'' = Some pts \<and> length pts \<le> 3" by auto
  ultimately show ?thesis using len by simp
qed

section \<open>The stored premium status: proofs\<close>

text \<open>
  Claim C10. \<open>getPremiumStatus\<close> returns \<open>{ isPremium: false }\<close> when reading the
  storage fails, when nothing (or the empty text) is stored, when the stored text does
  not parse to a status object, and when the stored status has an expiry text that is
  a date strictly before the current time. In every other case, that is for a stored
  status without expiry text, with an expiry text that is not a date, or with an expiry
  date at or after the current time, it returns the stored status as it is.
\<close>

theorem getPremiumStatus_cases:
  "(getItem PREMIUM_KEY = Throw \<longrightarrow>
      getPremiumStatus getItem JSON_parse Date_parse now = notPremium)
   \<and> (getItem PREMIUM_KEY = Return None \<or> getItem PREMIUM_KEY = Return (Some []) \<longrightarrow>
      getPremiumStatus getItem JSON_parse Date_parse now = notPremium)
   \<and> (getItem PREMIUM_KEY = Return (Some data)
        \<and> (JSON_parse data = Throw \<or> JSON_parse data = Return ParsedNull) \<longrightarrow>
      getPremiumStatus getItem JSON_parse Date_parse now = notPremium)
   \<and> (getItem PREMIUM_KEY = Return (Some data) \<and> data \<noteq> []
        \<and> JSON_parse data = Return (ParsedStatus status) \<longrightarrow>
      getPremiumStatus getItem JSON_parse Date_parse now =
        (if \<exists>e t. expiresAt status = Some e \<and> e \<noteq> [] \<and> Date_parse e = Some t \<and> t < now
         then notPremium else status))"
proof -
  have expired: "(\<exists>e t. expiresAt status = Some e \<and> e \<noteq> [] \<and> Date_parse e = Some t \<and> t < now)
      \<longleftrightarrow> (case expiresAt status of None \<Rightarrow> False
           | Some e \<Rightarrow> e \<noteq> [] \<and> lt_js (Date_parse e) now)"
    by (auto simp: lt_js_def split: option.splits)
  show ?thesis
    unfolding expired
    by (auto simp: getPremiumStatus_def split: option.splits)
qed

text \<open>
  A yearly plan stored under the key: with an expiry date before the current time the
  status is lost, with one after it the status is returned.
\<close>

theorem getPremiumStatus_cases_witness:
  "getPremiumStatus
     (\<lambda>key. if key = PREMIUM_KEY then Return (Some ''stored'') else Return None)
     (\<lambda>text. if text = ''stored''
        then Return (ParsedStatus \<lparr>isPremium = True, plan = Some yearly,
                                    expiresAt = Some ''2025-01-01''\<rparr>)
        else Throw)
     (\<lambda>text. if text = ''2025-01-01'' then Some 1735689600000 else None)
     1762128000000
   = notPremium
   \<and> getPremiumStatus
     (\<lambda>key. if key = PREMIUM_KEY then Return (Some ''stored'') else Return None)
     (\<lambda>text. if text = ''stored''
        then Return (ParsedStatus \<lparr>isPremium = True, plan = Some yearly,
                                    expiresAt = Some ''2025-01-01''\<rparr>)
        else Throw)
     (\<lambda>text. if text = ''2025-01-01'' then Some 1735689600000 else None)
     1700000000000
   = \<lparr>isPremium = True, plan = Some yearly, expiresAt = Some ''2025-01-01''\<rparr>
   \<and> getPremiumStatus (\<lambda>key. Throw) (\<lambda>text. Throw) (\<lambda>text. None) 0 = notPremium"
proof -
  let ?getItem = "\<lambda>key. if key = PREMIUM_KEY then Return (Some ''stored'') else Return None"
  let ?status = "\<lparr>isPremium = True, plan = Some yearly, expiresAt = Some ''2025-01-01''\<rparr>"
  let ?parse = "\<lambda>text. if text = ''stored'' then Return (ParsedStatus ?status) else Throw"
  let ?date = "\<lambda>text. if text = ''2025-01-01'' then Some (1735689600000 :: int) else None"
  have a: "getPremiumStatus ?getItem ?parse ?date 1762128000000 = notPremium"
    using getPremiumStatus_cases [of ?getItem ?parse ?date 1762128000000 "''stored''" ?status]
    by simp
  have b: "getPremiumStatus ?getItem ?parse ?date 1700000000000 = ?status"
    using getPremiumStatus_cases [of ?getItem ?parse ?date 1700000000000 "''stored''" ?status]
    by simp
  have c: "getPremiumStatus (\<lambda>key. Throw) (\<lambda>text. Throw) (\<lambda>text. None) 0 = notPremium"
    using getPremiumStatus_cases [of "\<lambda>key. Throw" "\<lambda>text. Throw" "\<lambda>text. None" 0]
    by simp
  from a b c show ?thesis by blast
qed

section \<open>Colour of the safety score: proofs\<close>

text \<open>
  The four colours partition the scores at 80, 60 and 40.
\<close>

lemma getSafetyColor_thresholds:
  "(getSafetyColor s = ''#22c55e'' \<longleftrightarrow> 80 \<le> s)
   \<and> (getSafetyColor s = ''#eab308'' \<longleftrightarrow> 60 \<le> s \<and> s < 80)
   \<and> (getSafetyColor s = ''#f97316'' \<longleftrightarrow> 40 \<le> s \<and> s < 60)
   \<and> (getSafetyColor s = ''#ef4444'' \<longleftrightarrow> s < 40)"
  by (auto simp: getSafetyColor_def)

end
